theory Spec2Isabelle
  imports Complex_Main
begin

section \<open>JumperJonesy: data model\<close>

text \<open>
  The game (src/game.js) keeps all of its state in script-level variables that the frame
  callback and the input handlers mutate in place. The model collects them in one record
  and passes it through every function. JavaScript numbers are modelled as exact reals
  (and the level index, which only ever holds whole numbers, as an integer), so the
  theorems speak about the arithmetic the source writes down, not about the rounding of
  IEEE doubles. Drawing calls have no effect on the state and are left out.
  Fields carry a prefix where the source's name is too short to be a constant of its
  own: \<open>p_x\<close> is \<open>player.x\<close>, \<open>o_x\<close> the \<open>x\<close> of an obstacle, \<open>b_x\<close> the \<open>x\<close> of a button, and
  \<open>canvas_width\<close> is \<open>canvas.width\<close>.
\<close>

datatype mode = MENU | LEVEL_SELECT | LEVEL | INFINITE | GAME_OVER | LEVEL_COMPLETE

record obstacle =
  o_x :: real
  o_y :: real
  o_width :: real
  o_height :: real

record player_obj =
  p_x :: real
  p_y :: real
  p_width :: real
  p_height :: real
  velocityY :: real
  gravity :: real
  jumpStrength :: real
  isGrounded :: bool
  hitboxOffsetX :: real
  hitboxOffsetY :: real
  hitboxWidthScale :: real
  hitboxHeightScale :: real
  terminalVelocity :: real

record button =
  b_x :: real
  b_y :: real
  b_width :: real
  b_height :: real

text \<open>
  The keys of the \<open>menuButtons\<close> object (\<open>k_levels\<close> for \<open>levels\<close> and so on);
  \<open>k_level i\<close> stands for the key \<open>'level_' + i\<close>. A key that was never assigned
  reads as \<open>undefined\<close>, here \<open>None\<close>.
\<close>

datatype button_key =
  k_levels | k_infinite | k_back
  | k_gameOverMenu | k_gameOverRetry
  | k_levelCompleteMenu | k_levelCompleteLevels
  | k_level int

record game =
  canvas_width :: real
  canvas_height :: real
  gameState :: mode
  previousGameState :: mode
  currentLevel :: int
  score :: real
  lastTime :: real
  levelObstacles :: "obstacle list"
  groundHeight :: real
  player :: player_obj
  menuButtons :: "button_key \<Rightarrow> button option"

text \<open>
  The script's initial values (lines 8 to 41). The canvas size before the first resize
  comes from the page, so it is a parameter.
\<close>

definition initial_player :: player_obj where
  "initial_player =
     \<lparr>p_x = 0, p_y = 0, p_width = 0, p_height = 0, velocityY = 0, gravity = 1,
      jumpStrength = -20, isGrounded = True,
      hitboxOffsetX = 0.12, hitboxOffsetY = 0.18,
      hitboxWidthScale = 0.76, hitboxHeightScale = 0.68,
      terminalVelocity = 2000\<rparr>"

definition initial_game :: "real \<Rightarrow> real \<Rightarrow> game" where
  "initial_game w h =
     \<lparr>canvas_width = w, canvas_height = h, gameState = MENU, previousGameState = INFINITE,
      currentLevel = 1, score = 0, lastTime = 0, levelObstacles = [],
      groundHeight = 10, player = initial_player, menuButtons = (\<lambda>k. None)\<rparr>"


section \<open>Resize and button layout\<close>

text \<open>
  The loop of \<open>updateMenuButtonPositions\<close> that lays out the fifty level buttons,
  \<open>for (let i = 1; i <= 50; i++)\<close>.
\<close>

function levelButtonsLoop ::
  "real \<Rightarrow> real \<Rightarrow> int \<Rightarrow> (button_key \<Rightarrow> button option) \<Rightarrow> (button_key \<Rightarrow> button option)"
where
  "levelButtonsLoop startX startY i m =
     (if i \<le> 50 then
        (let col = (i - 1) mod 10;
             row = (i - 1) div 10;
             x = startX + of_int col * (50 + 15);
             y = startY + of_int row * (30 + 15)
         in levelButtonsLoop startX startY (i + 1)
              (m(k_level i \<mapsto> \<lparr>b_x = x, b_y = y, b_width = 50, b_height = 30\<rparr>)))
      else m)"
  by pat_completeness auto
termination
  by (relation "measure (\<lambda>(startX, startY, i, m). nat (51 - i))") auto

declare levelButtonsLoop.simps [simp del]

text \<open>
  A button's \<open>text\<close> is read by \<open>drawButton\<close> only, so the record \<open>button\<close> holds the
  rectangle and leaves the caption out.
\<close>

definition updateMenuButtonPositions :: "game \<Rightarrow> game" where
  "updateMenuButtonPositions s =
     (let W = canvas_width s;
          H = canvas_height s;
          m0 = menuButtons s;
          m1 = m0(k_levels \<mapsto> \<lparr>b_x = W/2 - 150, b_y = H/2 + 30, b_width = 140, b_height = 40\<rparr>);
          m2 = m1(k_infinite \<mapsto> \<lparr>b_x = W/2 + 10, b_y = H/2 + 30, b_width = 140, b_height = 40\<rparr>);
          m3 = m2(k_back \<mapsto> \<lparr>b_x = 20, b_y = 20, b_width = 100, b_height = 30\<rparr>);
          bw = 200; bh = 50; by = H/2 + 20; margin = 20;
          m4 = m3(k_gameOverMenu \<mapsto> \<lparr>b_x = W/2 - bw - margin/2, b_y = by, b_width = bw, b_height = bh\<rparr>);
          m5 = m4(k_gameOverRetry \<mapsto> \<lparr>b_x = W/2 + margin/2, b_y = by, b_width = bw, b_height = bh\<rparr>);
          m6 = m5(k_levelCompleteMenu \<mapsto> \<lparr>b_x = W/2 - bw - margin/2, b_y = by, b_width = bw, b_height = bh\<rparr>);
          m7 = m6(k_levelCompleteLevels \<mapsto> \<lparr>b_x = W/2 + margin/2, b_y = by, b_width = bw, b_height = bh\<rparr>);
          startX = W * 0.1; startY = H * 0.25
      in s\<lparr>menuButtons := levelButtonsLoop startX startY 1 m7\<rparr>)"

text \<open>
  \<open>resizeCanvas\<close>: the arguments are the element's \<open>offsetWidth\<close> and \<open>offsetHeight\<close>.
\<close>

definition resizeCanvas :: "real \<Rightarrow> real \<Rightarrow> game \<Rightarrow> game" where
  "resizeCanvas offsetWidth offsetHeight s =
     (let s1 = s\<lparr>canvas_width := offsetWidth, canvas_height := offsetHeight\<rparr>;
          s2 = s1\<lparr>groundHeight := max 18 (canvas_height s1 * 0.06)\<rparr>;
          s3 = s2\<lparr>player := (player s2)\<lparr>p_height := canvas_height s2 * 0.15\<rparr>\<rparr>;
          s4 = s3\<lparr>player := (player s3)\<lparr>p_width := p_height (player s3)\<rparr>\<rparr>;
          s5 = s4\<lparr>player := (player s4)\<lparr>gravity := canvas_height s4 * 0.0035\<rparr>\<rparr>;
          s6 = s5\<lparr>player := (player s5)\<lparr>jumpStrength := - (canvas_height s5 * 0.06)\<rparr>\<rparr>;
          s7 = s6\<lparr>player := (player s6)\<lparr>terminalVelocity := canvas_height s6 * 2.5\<rparr>\<rparr>;
          s8 = s7\<lparr>player := (player s7)\<lparr>p_x := canvas_width s7 * 0.05\<rparr>\<rparr>;
          s9 = s8\<lparr>player := (player s8)\<lparr>p_y := canvas_height s8 - groundHeight s8 - p_height (player s8)\<rparr>\<rparr>
      in updateMenuButtonPositions s9)"


section \<open>Player physics\<close>

definition resetPlayerAndObstacles :: "game \<Rightarrow> game" where
  "resetPlayerAndObstacles s =
     (let s1 = s\<lparr>player := (player s)\<lparr>p_x := canvas_width s * 0.05\<rparr>\<rparr>;
          s2 = s1\<lparr>player := (player s1)\<lparr>p_y := canvas_height s1 - p_height (player s1) - groundHeight s1\<rparr>\<rparr>;
          s3 = s2\<lparr>player := (player s2)\<lparr>velocityY := 0\<rparr>\<rparr>;
          s4 = s3\<lparr>player := (player s3)\<lparr>isGrounded := True\<rparr>\<rparr>
      in s4\<lparr>levelObstacles := []\<rparr>)"

text \<open>
  \<open>updatePlayer\<close> works on the player with the canvas height and ground height read.
  The arithmetic is exact here: the resting position
  \<open>canvas.height - groundHeight - player.height\<close> that the ground snap assigns has
  \<open>y + height\<close> equal to the ground line, whereas in double arithmetic that sum can
  differ from the line by one rounding step. What is proved about the ground line below
  is therefore stated through the resting position itself, as the source computes it.
\<close>

definition updatePlayer :: "game \<Rightarrow> game" where
  "updatePlayer s =
     (let p0 = player s;
          p1 = (if \<not> isGrounded p0 then
                  (let a = p0\<lparr>velocityY := velocityY p0 + gravity p0\<rparr>;
                       b = (if velocityY a > terminalVelocity a
                            then a\<lparr>velocityY := terminalVelocity a\<rparr> else a)
                   in b\<lparr>p_y := p_y b + velocityY b\<rparr>)
                else p0);
          p2 = (if p_y p1 + p_height p1 > canvas_height s - groundHeight s
                then p1\<lparr>p_y := canvas_height s - groundHeight s - p_height p1,
                        velocityY := 0, isGrounded := True\<rparr>
                else p1);
          p3 = (if p_y p2 < 0
                then (let c = p2\<lparr>p_y := 0\<rparr>
                      in if velocityY c < 0 then c\<lparr>velocityY := 0\<rparr> else c)
                else p2)
      in s\<lparr>player := p3\<rparr>)"

definition jump :: "game \<Rightarrow> game" where
  "jump s =
     (if isGrounded (player s)
      then s\<lparr>player := (player s)\<lparr>isGrounded := False, velocityY := jumpStrength (player s)\<rparr>\<rparr>
      else s)"


section \<open>Obstacles\<close>

text \<open>
  \<open>Math.random()\<close> is modelled by a stream of draws \<open>rnd\<close> and a counter \<open>n\<close> of the
  draws already taken; the contract of \<open>Math.random\<close> (each draw in \<open>[0, 1)\<close>) is a
  hypothesis where a theorem needs it. The \<open>while\<close> loop of \<open>generateObstacles\<close> is not
  bounded by its text, so it is a partial function: \<open>None\<close> means the loop never ends.
  Every iteration takes three draws, in the order gap, width, height. The source's
  variable \<open>total\<close> is \<open>total_x\<close> here.
\<close>

partial_function (option) generateLoop ::
  "(nat \<Rightarrow> real) \<Rightarrow> real \<Rightarrow> real \<Rightarrow> real \<Rightarrow> real \<Rightarrow> real \<Rightarrow> real \<Rightarrow>
     nat \<Rightarrow> real \<Rightarrow> real \<Rightarrow> game \<Rightarrow> game option"
where
  "generateLoop rnd difficulty maxDist baseH tallH maxW minGap n x total_x s =
     (if total_x < maxDist then
        (let gap = max minGap (420 - difficulty * 60 + rnd n * 100);
             x1 = x + gap;
             w = min maxW (baseH * 0.6 + difficulty * 8 + rnd (n + 1) * 18);
             h = (if rnd (n + 2) < 0.25 then tallH + difficulty * 6 else baseH);
             s1 = s\<lparr>levelObstacles := levelObstacles s @
                    [\<lparr>o_x = x1, o_y = canvas_height s - groundHeight s - h,
                      o_width = w, o_height = h\<rparr>]\<rparr>;
             x2 = x1 + w
         in generateLoop rnd difficulty maxDist baseH tallH maxW minGap (n + 3) x2 x2 s1)
      else Some s)"

declare generateLoop.simps [code]

definition generateObstacles :: "(nat \<Rightarrow> real) \<Rightarrow> bool \<Rightarrow> game \<Rightarrow> game option" where
  "generateObstacles rnd isInfinite s =
     (let s0 = s\<lparr>levelObstacles := []\<rparr>;
          difficulty = (if isInfinite then 1 + of_int \<lfloor>score s0 / 500\<rfloor> * 0.2
                        else 1 + (of_int (currentLevel s0) - 1) * 0.15);
          maxDist = (if isInfinite then 999999999 else 800 + of_int (currentLevel s0) * 100);
          x = canvas_width s0 * 0.6;
          total_x = 0;
          baseH = p_height (player s0) * 1.05;
          tallH = p_height (player s0) * 2.0 + difficulty * 4;
          maxW = p_width (player s0) * 2.4;
          minGap = max (p_width (player s0) * 1.6) 40
      in generateLoop rnd difficulty maxDist baseH tallH maxW minGap 0 x total_x s0)"

definition resetGame :: "game \<Rightarrow> game" where
  "resetGame s =
     (let s1 = s\<lparr>previousGameState := gameState s\<rparr>;
          s2 = s1\<lparr>player := (player s1)\<lparr>velocityY := 0\<rparr>\<rparr>;
          s3 = s2\<lparr>player := (player s2)\<lparr>isGrounded := True\<rparr>\<rparr>
      in s3\<lparr>gameState := GAME_OVER\<rparr>)"

text \<open>
  The \<open>for\<close> loop of \<open>updateObstacles\<close> leaves in one of two ways: by the \<open>return\<close> after
  \<open>resetGame()\<close>, or by running off the end of the array with the flag \<open>levelDone\<close>.
\<close>

datatype scan_exit = Returned game | Scanned game bool

function scanObstacles ::
  "real \<Rightarrow> real \<Rightarrow> real \<Rightarrow> real \<Rightarrow> real \<Rightarrow> nat \<Rightarrow> bool \<Rightarrow> game \<Rightarrow> scan_exit"
where
  "scanObstacles dx pX pY pW pH i levelDone s =
     (if i < length (levelObstacles s) then
        (let o0 = levelObstacles s ! i;
             o1 = o0\<lparr>o_x := o_x o0 - dx\<rparr>;
             s1 = s\<lparr>levelObstacles := (levelObstacles s)[i := o1]\<rparr>
         in if pX < o_x o1 + o_width o1 \<and> pX + pW > o_x o1 \<and>
               pY < o_y o1 + o_height o1 \<and> pY + pH > o_y o1
            then Returned (resetGame s1)
            else scanObstacles dx pX pY pW pH (i + 1)
                   (if gameState s1 = LEVEL \<and> o_x o1 < - o_width o1 \<and>
                       i = length (levelObstacles s1) - 1
                    then True else levelDone) s1)
      else Scanned s levelDone)"
  by pat_completeness auto
termination
  by (relation "measure (\<lambda>(dx, pX, pY, pW, pH, i, levelDone, s). length (levelObstacles s) - i)")
     auto

declare scanObstacles.simps [simp del]

definition updateObstacles :: "real \<Rightarrow> game \<Rightarrow> game" where
  "updateObstacles delta s =
     (let baseSpeed = (if gameState s = LEVEL then 250 else 300);
          speedUp = (if gameState s = INFINITE then of_int \<lfloor>score s / 100\<rfloor> * 5 else 0);
          scroll = baseSpeed + speedUp;
          dx = scroll * delta;
          pX = p_x (player s) + p_width (player s) * hitboxOffsetX (player s);
          pY = p_y (player s) + p_height (player s) * hitboxOffsetY (player s);
          pW = p_width (player s) * hitboxWidthScale (player s);
          pH = p_height (player s) * hitboxHeightScale (player s)
      in case scanObstacles dx pX pY pW pH 0 False s of
           Returned s' \<Rightarrow> s'
         | Scanned s' levelDone \<Rightarrow>
             (if levelDone then
                (let s1 = s'\<lparr>gameState := LEVEL_COMPLETE\<rparr>;
                     s2 = resetPlayerAndObstacles s1
                 in s2\<lparr>currentLevel := currentLevel s2 + 1\<rparr>)
              else s'))"


section \<open>Game update, score and the frame callback\<close>

definition updateGame :: "real \<Rightarrow> game \<Rightarrow> game" where
  "updateGame delta s = updateObstacles delta (updatePlayer s)"

definition updateScore :: "real \<Rightarrow> game \<Rightarrow> game" where
  "updateScore delta s = s\<lparr>score := score s + 250 * delta\<rparr>"

text \<open>
  \<open>gameLoop\<close>: \<open>imgComplete\<close> is \<open>playerImg.complete\<close>. After \<open>updateGame\<close> the callback
  tests \<open>gameState\<close> again, and every value other than \<open>LEVEL\<close> takes the branch that
  calls \<open>updateScore\<close>.
\<close>

definition gameLoop :: "bool \<Rightarrow> real \<Rightarrow> game \<Rightarrow> game" where
  "gameLoop imgComplete timestamp s =
     (if \<not> imgComplete then s
      else
        (let delta = (timestamp - lastTime s) / 1000;
             s1 = s\<lparr>lastTime := timestamp\<rparr>
         in case gameState s1 of
              MENU \<Rightarrow> s1
            | LEVEL_SELECT \<Rightarrow> s1
            | LEVEL \<Rightarrow>
                (let s2 = updateGame delta s1
                 in if gameState s2 = LEVEL then s2 else updateScore delta s2)
            | INFINITE \<Rightarrow>
                (let s2 = updateGame delta s1
                 in if gameState s2 = LEVEL then s2 else updateScore delta s2)
            | GAME_OVER \<Rightarrow> s1
            | LEVEL_COMPLETE \<Rightarrow> s1))"


section \<open>Input handling\<close>

definition isButtonClicked :: "button option \<Rightarrow> real \<Rightarrow> real \<Rightarrow> bool" where
  "isButtonClicked btn x y =
     (case btn of
        None \<Rightarrow> False
      | Some b \<Rightarrow> x \<ge> b_x b \<and> x \<le> b_x b + b_width b \<and> y \<ge> b_y b \<and> y \<le> b_y b + b_height b)"

text \<open>
  The level-select loop \<open>for (let i = 1; i <= 50; i++)\<close> with its \<open>break\<close> at the first
  button that holds the click.
\<close>

function levelSelectLoop :: "(nat \<Rightarrow> real) \<Rightarrow> real \<Rightarrow> real \<Rightarrow> int \<Rightarrow> game \<Rightarrow> game option" where
  "levelSelectLoop rnd x y i s =
     (if i \<le> 50 then
        (if isButtonClicked (menuButtons s (k_level i)) x y then
           (let s1 = s\<lparr>currentLevel := i\<rparr>;
                s2 = resetPlayerAndObstacles s1
            in case generateObstacles rnd False s2 of
                 None \<Rightarrow> None
               | Some s3 \<Rightarrow> Some (s3\<lparr>gameState := LEVEL\<rparr>))
         else levelSelectLoop rnd x y (i + 1) s)
      else Some s)"
  by pat_completeness auto
termination
  by (relation "measure (\<lambda>(rnd, x, y, i, s). nat (51 - i))") auto

declare levelSelectLoop.simps [simp del]

text \<open>
  \<open>handleMouseDown\<close>: \<open>x\<close> and \<open>y\<close> are the click's coordinates relative to the canvas.
  The result is \<open>None\<close> when a call of \<open>generateObstacles\<close> does not return.
\<close>

definition handleMouseDown :: "(nat \<Rightarrow> real) \<Rightarrow> real \<Rightarrow> real \<Rightarrow> game \<Rightarrow> game option" where
  "handleMouseDown rnd x y s =
     (if gameState s = MENU then
        (if isButtonClicked (menuButtons s k_levels) x y then Some (s\<lparr>gameState := LEVEL_SELECT\<rparr>)
         else if isButtonClicked (menuButtons s k_infinite) x y then
           (let s1 = s\<lparr>score := 0\<rparr>;
                s2 = resetPlayerAndObstacles s1
            in case generateObstacles rnd True s2 of
                 None \<Rightarrow> None
               | Some s3 \<Rightarrow> Some (s3\<lparr>gameState := INFINITE\<rparr>))
         else Some s)
      else if gameState s = LEVEL_SELECT then
        (if isButtonClicked (menuButtons s k_back) x y then Some (s\<lparr>gameState := MENU\<rparr>)
         else levelSelectLoop rnd x y 1 s)
      else if gameState s = GAME_OVER then
        (if isButtonClicked (menuButtons s k_gameOverMenu) x y then
           (let s1 = resetPlayerAndObstacles s;
                s2 = s1\<lparr>score := 0\<rparr>
            in Some (s2\<lparr>gameState := MENU\<rparr>))
         else if isButtonClicked (menuButtons s k_gameOverRetry) x y then
           (let s1 = resetPlayerAndObstacles s
            in if previousGameState s1 = INFINITE then
                 (let s2 = s1\<lparr>score := 0\<rparr>
                  in case generateObstacles rnd True s2 of
                       None \<Rightarrow> None
                     | Some s3 \<Rightarrow> Some (s3\<lparr>gameState := INFINITE\<rparr>))
               else
                 (case generateObstacles rnd False s1 of
                    None \<Rightarrow> None
                  | Some s3 \<Rightarrow> Some (s3\<lparr>gameState := LEVEL\<rparr>)))
         else Some s)
      else if gameState s = LEVEL_COMPLETE then
        (if isButtonClicked (menuButtons s k_levelCompleteMenu) x y then
           (let s1 = s\<lparr>gameState := MENU\<rparr> in Some (s1\<lparr>score := 0\<rparr>))
         else if isButtonClicked (menuButtons s k_levelCompleteLevels) x y then
           Some (s\<lparr>gameState := LEVEL_SELECT\<rparr>)
         else Some s)
      else Some s)"

text \<open>\<open>handleKeyInput\<close>: \<open>code\<close> is the event's \<open>e.code\<close>.\<close>

definition handleKeyInput :: "string \<Rightarrow> game \<Rightarrow> game" where
  "handleKeyInput code s =
     (if (gameState s = LEVEL \<or> gameState s = INFINITE) \<and> (code = ''Space'' \<or> code = ''ArrowUp'')
      then jump s else s)"

text \<open>
  The operations the host can invoke on the state: a frame (with the image loaded, as
  \<open>init\<close> runs from its \<open>onload\<close>), a mouse press, a key press, a resize.
\<close>

datatype event = Tick real | MouseDown real real | KeyDown string | Resize real real

definition step :: "(nat \<Rightarrow> real) \<Rightarrow> event \<Rightarrow> game \<Rightarrow> game option" where
  "step rnd e s =
     (case e of
        Tick timestamp \<Rightarrow> Some (gameLoop True timestamp s)
      | MouseDown x y \<Rightarrow> handleMouseDown rnd x y s
      | KeyDown code \<Rightarrow> Some (handleKeyInput code s)
      | Resize w h \<Rightarrow> Some (resizeCanvas w h s))"


section \<open>Predicates and example states used by the theorems\<close>

text \<open>
  The player is between the ceiling and the ground line: the two inequalities of the
  ground invariant.
\<close>

definition within_bounds :: "game \<Rightarrow> bool" where
  "within_bounds s \<longleftrightarrow>
     p_y (player s) + p_height (player s) \<le> canvas_height s - groundHeight s \<and>
     p_y (player s) \<ge> 0"

text \<open>
  Two states the script reaches right after \<open>init\<close>: the first resize on a canvas of
  1000 by 600 pixels, and on a canvas that is only 10 pixels high.
\<close>

definition example_game :: game where
  "example_game = resizeCanvas 1000 600 (initial_game 300 150)"

definition tiny_canvas_game :: game where
  "tiny_canvas_game = resizeCanvas 300 10 (initial_game 300 150)"


text \<open>
  The words of the specification for one tick of the scroller: the scroll speed, an
  obstacle moved left by a distance, the strict axis-aligned overlap test, and the
  player's shrunken hitbox tested against an obstacle.
\<close>

definition spec_scrollSpeed :: "game \<Rightarrow> real" where
  "spec_scrollSpeed s =
     (if gameState s = LEVEL then 250 else 300) +
     (if gameState s = INFINITE then of_int \<lfloor>score s / 100\<rfloor> * 5 else 0)"

definition spec_scrolled :: "real \<Rightarrow> obstacle \<Rightarrow> obstacle" where
  "spec_scrolled dx o1 = o1\<lparr>o_x := o_x o1 - dx\<rparr>"

definition aabb :: "real \<Rightarrow> real \<Rightarrow> real \<Rightarrow> real \<Rightarrow> obstacle \<Rightarrow> bool" where
  "aabb pX pY pW pH o1 \<longleftrightarrow>
     pX < o_x o1 + o_width o1 \<and> pX + pW > o_x o1 \<and>
     pY < o_y o1 + o_height o1 \<and> pY + pH > o_y o1"

definition spec_collides :: "game \<Rightarrow> obstacle \<Rightarrow> bool" where
  "spec_collides s o1 =
     aabb (p_x (player s) + p_width (player s) * hitboxOffsetX (player s))
          (p_y (player s) + p_height (player s) * hitboxOffsetY (player s))
          (p_width (player s) * hitboxWidthScale (player s))
          (p_height (player s) * hitboxHeightScale (player s)) o1"


text \<open>
  Example states of a level run on the 1000 by 600 canvas (player 90 by 90 at x = 50,
  standing at y = 474; hitbox from (60.8, 490.2), 68.4 wide and 61.2 high): one where the
  second of three obstacles reaches the player on the next frame, and one where the last
  obstacle is about to leave the screen.
\<close>

definition low_obstacle :: "real \<Rightarrow> obstacle" where
  "low_obstacle x = \<lparr>o_x = x, o_y = 469.5, o_width = 60, o_height = 94.5\<rparr>"

definition crash_game :: game where
  "crash_game =
     example_game\<lparr>gameState := LEVEL, currentLevel := 7, lastTime := 1000,
       levelObstacles := [low_obstacle (-100), low_obstacle 132, low_obstacle 600]\<rparr>"

definition cleared_game :: game where
  "cleared_game =
     example_game\<lparr>gameState := LEVEL, currentLevel := 7, lastTime := 1000,
       levelObstacles := [low_obstacle (-200), low_obstacle (-58)]\<rparr>"


text \<open>
  The words of the specification for the generator. A draw \<open>r\<close> of \<open>Math.random()\<close> lies
  in \<open>[0, 1)\<close>: \<open>uniformRandom(0, 100)\<close> is \<open>r * 100\<close>, \<open>uniformRandom(0, 18)\<close> is \<open>r * 18\<close>,
  and "with probability 0.25" is the event \<open>r < 0.25\<close>. \<open>spec_cursor\<close> is the cursor before
  the \<open>i\<close>-th obstacle: the start \<open>viewportWidth * 0.6\<close>, then the right edge of the
  obstacle before.
\<close>

definition spec_difficulty :: "bool \<Rightarrow> game \<Rightarrow> real" where
  "spec_difficulty isInfinite s =
     (if isInfinite then 1 + of_int \<lfloor>score s / 500\<rfloor> * 0.2
      else 1 + (of_int (currentLevel s) - 1) * 0.15)"

definition spec_gap :: "game \<Rightarrow> real \<Rightarrow> real \<Rightarrow> real" where
  "spec_gap s d r = max (max (p_width (player s) * 1.6) 40) (420 - d * 60 + r * 100)"

definition spec_width :: "game \<Rightarrow> real \<Rightarrow> real \<Rightarrow> real" where
  "spec_width s d r =
     min (p_width (player s) * 2.4) (p_height (player s) * 1.05 * 0.6 + d * 8 + r * 18)"

definition spec_height :: "game \<Rightarrow> real \<Rightarrow> real \<Rightarrow> real" where
  "spec_height s d r =
     (if r < 0.25 then (p_height (player s) * 2.0 + d * 4) + d * 6
      else p_height (player s) * 1.05)"

definition spec_cursor :: "game \<Rightarrow> obstacle list \<Rightarrow> nat \<Rightarrow> real" where
  "spec_cursor s obs i =
     (if i = 0 then canvas_width s * 0.6
      else o_x (obs ! (i - 1)) + o_width (obs ! (i - 1)))"

text \<open>
  What the loop of \<open>generateObstacles\<close> appends when it is entered with \<open>n\<close> draws taken,
  cursor \<open>x\<close> and \<open>total = tot\<close>, read off the loop body one obstacle at a time; \<open>line\<close>
  is \<open>canvas.height - groundHeight\<close>.
\<close>

primrec placed_from ::
  "(nat \<Rightarrow> real) \<Rightarrow> real \<Rightarrow> real \<Rightarrow> real \<Rightarrow> real \<Rightarrow> real \<Rightarrow> real \<Rightarrow> real \<Rightarrow>
     obstacle list \<Rightarrow> nat \<Rightarrow> real \<Rightarrow> real \<Rightarrow> bool"
where
  "placed_from rnd d maxDist baseH tallH maxW minGap line [] n x tot \<longleftrightarrow> \<not> tot < maxDist"
| "placed_from rnd d maxDist baseH tallH maxW minGap line (o1 # rest) n x tot \<longleftrightarrow>
     tot < maxDist \<and>
     o_x o1 = x + max minGap (420 - d * 60 + rnd n * 100) \<and>
     o_width o1 = min maxW (baseH * 0.6 + d * 8 + rnd (n + 1) * 18) \<and>
     o_height o1 = (if rnd (n + 2) < 0.25 then tallH + d * 6 else baseH) \<and>
     o_y o1 = line - o_height o1 \<and>
     placed_from rnd d maxDist baseH tallH maxW minGap line rest (n + 3)
       (o_x o1 + o_width o1) (o_x o1 + o_width o1)"


text \<open>A run of level 7 on the 1000 by 600 canvas, and a stream whose draws are all 1/2.\<close>

definition level7_game :: game where
  "level7_game = example_game\<lparr>currentLevel := 7\<rparr>"

definition half_draws :: "nat \<Rightarrow> real" where
  "half_draws n = 1 / 2"

text \<open>The three obstacles of level 7 on that canvas when every draw is 1/2.\<close>

definition level7_obstacles :: "obstacle list" where
  "level7_obstacles =
     [\<lparr>o_x = 956, o_y = 939 / 2, o_width = 809 / 10, o_height = 189 / 2\<rparr>,
      \<lparr>o_x = 13929 / 10, o_y = 939 / 2, o_width = 809 / 10, o_height = 189 / 2\<rparr>,
      \<lparr>o_x = 9149 / 5, o_y = 939 / 2, o_width = 809 / 10, o_height = 189 / 2\<rparr>]"


text \<open>A stream whose third draw (the first height draw) is 1/5 and all others 1/2.\<close>

definition mixed_draws :: "nat \<Rightarrow> real" where
  "mixed_draws n = (if n = 2 then 1 / 5 else 1 / 2)"


text \<open>
  The crash of \<open>crash_game\<close> as \<open>resetGame\<close> leaves it (GAME_OVER after a level run of
  level 7), and the level-select screen with level 7 as the current level.
\<close>

definition game_over_game :: game where
  "game_over_game = resetGame crash_game"

definition select_game :: game where
  "select_game = example_game\<lparr>gameState := LEVEL_SELECT, currentLevel := 7\<rparr>"

text \<open>
  The level run of \<open>crash_game\<close> after a press of the space key and the frame at 1020:
  the player has jumped and meets the second obstacle in the air.
\<close>

definition air_crash_game :: game where
  "air_crash_game = gameLoop True 1020 (handleKeyInput ''Space'' crash_game)"



text \<open>A run of frames, given by their timestamps, with the image loaded.\<close>

definition run_frames :: "real list \<Rightarrow> game \<Rightarrow> game" where
  "run_frames ts s = fold (gameLoop True) ts s"


section \<open>Resize: what it computes\<close>

text \<open>What the level-button loop leaves under each key.\<close>

lemma levelButtonsLoop_other:
  "(\<And>j. k \<noteq> k_level j) \<Longrightarrow> levelButtonsLoop sx sy i m k = m k"
proof (induction sx sy i m rule: levelButtonsLoop.induct)
  case (1 sx sy i m)
  show ?case
  proof (cases "i \<le> 50")
    case True
    have "levelButtonsLoop sx sy i m k =
          levelButtonsLoop sx sy (i + 1)
            (m(k_level i \<mapsto> \<lparr>b_x = sx + of_int ((i - 1) mod 10) * (50 + 15),
                                b_y = sy + of_int ((i - 1) div 10) * (30 + 15),
                                b_width = 50, b_height = 30\<rparr>)) k"
      using True by (subst levelButtonsLoop.simps) (simp add: Let_def)
    also have "\<dots> = (m(k_level i \<mapsto> \<lparr>b_x = sx + of_int ((i - 1) mod 10) * (50 + 15),
                                b_y = sy + of_int ((i - 1) div 10) * (30 + 15),
                                b_width = 50, b_height = 30\<rparr>)) k"
      using "1.IH" [OF True refl refl refl refl] "1.prems" by blast
    also have "\<dots> = m k"
      using "1.prems" by simp
    finally show ?thesis .
  next
    case False
    then show ?thesis
      by (subst levelButtonsLoop.simps) simp
  qed
qed

lemma levelButtonsLoop_level:
  "levelButtonsLoop sx sy i m (k_level j) =
     (if i \<le> j \<and> j \<le> 50
      then Some \<lparr>b_x = sx + of_int ((j - 1) mod 10) * 65,
                 b_y = sy + of_int ((j - 1) div 10) * 45,
                 b_width = 50, b_height = 30\<rparr>
      else m (k_level j))"
proof (induction sx sy i m rule: levelButtonsLoop.induct)
  case (1 sx sy i m)
  show ?case
  proof (cases "i \<le> 50")
    case True
    have "levelButtonsLoop sx sy i m (k_level j) =
          levelButtonsLoop sx sy (i + 1)
            (m(k_level i \<mapsto> \<lparr>b_x = sx + of_int ((i - 1) mod 10) * (50 + 15),
                                b_y = sy + of_int ((i - 1) div 10) * (30 + 15),
                                b_width = 50, b_height = 30\<rparr>)) (k_level j)"
      using True by (subst levelButtonsLoop.simps) (simp add: Let_def)
    also have "\<dots> = (if i + 1 \<le> j \<and> j \<le> 50
      then Some \<lparr>b_x = sx + of_int ((j - 1) mod 10) * 65,
                 b_y = sy + of_int ((j - 1) div 10) * 45,
                 b_width = 50, b_height = 30\<rparr>
      else (m(k_level i \<mapsto> \<lparr>b_x = sx + of_int ((i - 1) mod 10) * (50 + 15),
                                b_y = sy + of_int ((i - 1) div 10) * (30 + 15),
                                b_width = 50, b_height = 30\<rparr>)) (k_level j))"
      using "1.IH" [OF True refl refl refl refl] by blast
    also have "\<dots> = (if i \<le> j \<and> j \<le> 50
      then Some \<lparr>b_x = sx + of_int ((j - 1) mod 10) * 65,
                 b_y = sy + of_int ((j - 1) div 10) * 45,
                 b_width = 50, b_height = 30\<rparr>
      else m (k_level j))"
      using True by auto
    finally show ?thesis .
  next
    case False
    then show ?thesis
      by (subst levelButtonsLoop.simps) auto
  qed
qed


lemma resizeCanvas_eq:
  "resizeCanvas w h s =
     s\<lparr>canvas_width := w, canvas_height := h,
       groundHeight := max 18 (h * 0.06),
       player := (player s)\<lparr>p_height := h * 0.15, p_width := h * 0.15,
          gravity := h * 0.0035, jumpStrength := - (h * 0.06), terminalVelocity := h * 2.5,
          p_x := w * 0.05, p_y := h - max 18 (h * 0.06) - h * 0.15\<rparr>,
       menuButtons := menuButtons (updateMenuButtonPositions (s\<lparr>canvas_width := w, canvas_height := h\<rparr>))\<rparr>"
  by (simp add: resizeCanvas_def updateMenuButtonPositions_def Let_def)

lemma menuButtons_idem:
  "menuButtons (updateMenuButtonPositions (updateMenuButtonPositions s)) =
   menuButtons (updateMenuButtonPositions s)"
proof
  fix k
  show "menuButtons (updateMenuButtonPositions (updateMenuButtonPositions s)) k =
        menuButtons (updateMenuButtonPositions s) k"
    by (cases k) (simp_all add: updateMenuButtonPositions_def Let_def
          levelButtonsLoop_level levelButtonsLoop_other)
qed


text \<open>
  C9. Resize idempotence: invoking \<open>resizeCanvas\<close> twice in a row with the same viewport
  dimensions gives the same state as invoking it once; in particular the player's
  geometry (x, y, width, height) and the physics constants (gravity, jumpStrength,
  terminalVelocity, groundHeight) are identical after each invocation.
\<close>

theorem resizeCanvas_idempotent:
  "resizeCanvas w h (resizeCanvas w h s) = resizeCanvas w h s \<and>
   p_x (player (resizeCanvas w h (resizeCanvas w h s))) = p_x (player (resizeCanvas w h s)) \<and>
   p_y (player (resizeCanvas w h (resizeCanvas w h s))) = p_y (player (resizeCanvas w h s)) \<and>
   p_width (player (resizeCanvas w h (resizeCanvas w h s))) = p_width (player (resizeCanvas w h s)) \<and>
   p_height (player (resizeCanvas w h (resizeCanvas w h s))) = p_height (player (resizeCanvas w h s)) \<and>
   gravity (player (resizeCanvas w h (resizeCanvas w h s))) = gravity (player (resizeCanvas w h s)) \<and>
   jumpStrength (player (resizeCanvas w h (resizeCanvas w h s))) =
     jumpStrength (player (resizeCanvas w h s)) \<and>
   terminalVelocity (player (resizeCanvas w h (resizeCanvas w h s))) =
     terminalVelocity (player (resizeCanvas w h s)) \<and>
   groundHeight (resizeCanvas w h (resizeCanvas w h s)) = groundHeight (resizeCanvas w h s)"
proof -
  have "menuButtons (resizeCanvas w h (resizeCanvas w h s)) = menuButtons (resizeCanvas w h s)"
    using menuButtons_idem [of "s\<lparr>canvas_width := w, canvas_height := h\<rparr>"]
    apply (simp add: resizeCanvas_eq)
    apply (simp add: updateMenuButtonPositions_def Let_def)
    done
  then have "resizeCanvas w h (resizeCanvas w h s) = resizeCanvas w h s"
    by (simp add: resizeCanvas_eq)
  then show ?thesis
    by simp
qed

section \<open>Physics: the ground invariant\<close>

lemma updatePlayer_frame:
  "canvas_height (updatePlayer s) = canvas_height s"
  "groundHeight (updatePlayer s) = groundHeight s"
  "p_height (player (updatePlayer s)) = p_height (player s)"
  by (simp_all add: updatePlayer_def Let_def)

lemma updatePlayer_pow_frame:
  "canvas_height ((updatePlayer ^^ n) s) = canvas_height s \<and>
   groundHeight ((updatePlayer ^^ n) s) = groundHeight s \<and>
   p_height (player ((updatePlayer ^^ n) s)) = p_height (player s)"
  by (induction n) (simp_all add: updatePlayer_frame)

text \<open>
  After one call the player is not above the ceiling, and it is not below its resting
  position: its feet are on or above the ground line or it is exactly where the ground
  snap puts it; a player too tall to fit ends at the ceiling.
\<close>

lemma updatePlayer_rest_or_above:
  "p_y (player (updatePlayer s)) \<ge> 0 \<and>
   (if p_height (player s) \<le> canvas_height s - groundHeight s
    then p_y (player (updatePlayer s)) + p_height (player s) \<le> canvas_height s - groundHeight s \<or>
         p_y (player (updatePlayer s)) = canvas_height s - groundHeight s - p_height (player s)
    else p_y (player (updatePlayer s)) = 0)"
  by (simp add: updatePlayer_def Let_def)

text \<open>
  One call of \<open>updatePlayer\<close>, case by case. \<open>vy1\<close> and \<open>y1\<close> are the velocity and the
  position after the integration step (unchanged when the player is grounded).
\<close>

lemma updatePlayer_snaps:
  "(let p = player s;
        line = canvas_height s - groundHeight s;
        vy1 = (if isGrounded p then velocityY p
               else min (velocityY p + gravity p) (terminalVelocity p));
        y1 = (if isGrounded p then p_y p else p_y p + vy1);
        p' = player (updatePlayer s)
    in (if y1 + p_height p > line
        then velocityY p' = 0 \<and> isGrounded p' \<and>
             p_y p' = (if line - p_height p < 0 then 0 else line - p_height p)
        else isGrounded p' = isGrounded p \<and>
             (if y1 < 0 then p_y p' = 0 \<and> velocityY p' = (if vy1 < 0 then 0 else vy1)
              else p_y p' = y1 \<and> velocityY p' = vy1)))"
  by (simp add: updatePlayer_def Let_def min_def)

text \<open>
  C3, as stated: from every state with the player on or above the ground, every call of
  \<open>updatePlayer\<close> leaves \<open>y + height \<le> canvasHeight - groundHeight\<close> and \<open>y \<ge> 0\<close>.
  This fails on a canvas too low for the player to fit between the ceiling and the
  ground line. After \<open>resizeCanvas\<close> on a canvas 10 pixels high the ground height is 18,
  the player's height 1.5 and its y is -9.5: the player stands on the ground line
  (at -8), the ceiling clamp of the next \<open>updatePlayer\<close> moves it to y = 0, and its feet
  are then at 1.5, below the ground line.
\<close>

theorem ground_invariant_fails_on_tiny_canvas:
  "p_y (player tiny_canvas_game) + p_height (player tiny_canvas_game)
     \<le> canvas_height tiny_canvas_game - groundHeight tiny_canvas_game \<and>
   \<not> within_bounds (updatePlayer tiny_canvas_game)"
  by (simp add: tiny_canvas_game_def resizeCanvas_eq updatePlayer_def within_bounds_def
        initial_game_def initial_player_def Let_def)

text \<open>
  C3, amended: for every sequence of calls of \<open>updatePlayer\<close>, from any state, after
  each call \<open>y \<ge> 0\<close> holds. When the player fits between the ceiling and the ground
  line (\<open>height \<le> canvasHeight - groundHeight\<close>), after each call either
  \<open>y + height \<le> canvasHeight - groundHeight\<close> holds or the player is exactly at the
  resting position \<open>y = canvasHeight - groundHeight - height\<close> where the ground snap
  puts it; when the player does not fit, \<open>y = 0\<close>. In one call, the ground snap puts
  the player at the resting position (or at the ceiling when that position is above
  it), zeroes velocityY and sets grounded; the ceiling snap sets y to 0 and zeroes
  velocityY only when it is negative.
\<close>

theorem updatePlayer_ground_invariant:
  assumes "0 < n"
  shows "p_y (player ((updatePlayer ^^ n) s)) \<ge> 0 \<and>
    (if p_height (player s) \<le> canvas_height s - groundHeight s
     then p_y (player ((updatePlayer ^^ n) s)) + p_height (player s)
            \<le> canvas_height s - groundHeight s \<or>
          p_y (player ((updatePlayer ^^ n) s))
            = canvas_height s - groundHeight s - p_height (player s)
     else p_y (player ((updatePlayer ^^ n) s)) = 0) \<and>
    (let p = player s;
         line = canvas_height s - groundHeight s;
         vy1 = (if isGrounded p then velocityY p
                else min (velocityY p + gravity p) (terminalVelocity p));
         y1 = (if isGrounded p then p_y p else p_y p + vy1);
         p' = player (updatePlayer s)
     in (if y1 + p_height p > line
         then velocityY p' = 0 \<and> isGrounded p' \<and>
              p_y p' = (if line - p_height p < 0 then 0 else line - p_height p)
         else isGrounded p' = isGrounded p \<and>
              (if y1 < 0 then p_y p' = 0 \<and> velocityY p' = (if vy1 < 0 then 0 else vy1)
               else p_y p' = y1 \<and> velocityY p' = vy1)))"
proof -
  from \<open>0 < n\<close> obtain m where n: "n = Suc m" by (cases n) auto
  let ?t = "(updatePlayer ^^ m) s"
  have fr: "canvas_height ?t = canvas_height s" "groundHeight ?t = groundHeight s"
    "p_height (player ?t) = p_height (player s)"
    using updatePlayer_pow_frame [of m s] by simp_all
  have "p_y (player ((updatePlayer ^^ n) s)) \<ge> 0 \<and>
    (if p_height (player s) \<le> canvas_height s - groundHeight s
     then p_y (player ((updatePlayer ^^ n) s)) + p_height (player s)
            \<le> canvas_height s - groundHeight s \<or>
          p_y (player ((updatePlayer ^^ n) s))
            = canvas_height s - groundHeight s - p_height (player s)
     else p_y (player ((updatePlayer ^^ n) s)) = 0)"
    using updatePlayer_rest_or_above [of ?t] unfolding fr n by simp
  then show ?thesis
    using updatePlayer_snaps [of s] by blast
qed

theorem updatePlayer_ground_invariant_witness:
  "(0::nat) < 3 \<and>
   p_height (player (jump example_game))
     \<le> canvas_height (jump example_game) - groundHeight (jump example_game) \<and>
   p_y (player (updatePlayer (jump example_game))) = 4401 / 10 \<and>
   velocityY (player (updatePlayer (jump example_game))) = - 339 / 10 \<and>
   p_y (player ((updatePlayer ^^ 3) (jump example_game))) = 1893 / 5 \<and>
   (0::real) \<le> 1893 / 5 \<and>
   (1893 / 5 + p_height (player (jump example_game)) :: real)
     \<le> canvas_height (jump example_game) - groundHeight (jump example_game) \<and>
   (0::nat) < 1 \<and>
   \<not> p_height (player tiny_canvas_game)
     \<le> canvas_height tiny_canvas_game - groundHeight tiny_canvas_game \<and>
   p_y (player ((updatePlayer ^^ 1) tiny_canvas_game)) = 0"
proof -
  have e3: "p_y (player ((updatePlayer ^^ 3) (jump example_game))) = 1893 / 5"
    by (simp add: numeral_3_eq_3 updatePlayer_def Let_def example_game_def resizeCanvas_eq
          jump_def initial_game_def initial_player_def)
  have t: "\<not> p_height (player tiny_canvas_game)
     \<le> canvas_height tiny_canvas_game - groundHeight tiny_canvas_game"
    by (simp add: tiny_canvas_game_def resizeCanvas_eq initial_game_def initial_player_def)
  have t1: "p_y (player ((updatePlayer ^^ 1) tiny_canvas_game)) = 0"
    using updatePlayer_ground_invariant [of 1 tiny_canvas_game] t by simp
  show ?thesis
    using updatePlayer_ground_invariant [of 3 "jump example_game"] e3 t t1
    by (simp add: example_game_def resizeCanvas_eq jump_def initial_game_def initial_player_def
          Let_def)
qed


section \<open>The obstacle scan\<close>

text \<open>One iteration of the loop of \<open>updateObstacles\<close>, and the loop at the end of the array.\<close>

lemma scan_step:
  assumes "i < length (levelObstacles s)"
  shows "scanObstacles dx pX pY pW pH i ld s =
    (if aabb pX pY pW pH (spec_scrolled dx (levelObstacles s ! i))
     then Returned (resetGame (s\<lparr>levelObstacles := (levelObstacles s)[i := spec_scrolled dx (levelObstacles s ! i)]\<rparr>))
     else scanObstacles dx pX pY pW pH (i + 1)
            (ld \<or> (gameState s = LEVEL \<and>
                    o_x (levelObstacles s ! i) - dx < - o_width (levelObstacles s ! i) \<and>
                    i = length (levelObstacles s) - 1))
            (s\<lparr>levelObstacles := (levelObstacles s)[i := spec_scrolled dx (levelObstacles s ! i)]\<rparr>))"
  using assms
  by (subst scanObstacles.simps) (auto simp: Let_def aabb_def spec_scrolled_def)

lemma scan_end:
  "\<not> i < length (levelObstacles s) \<Longrightarrow> scanObstacles dx pX pY pW pH i ld s = Scanned s ld"
  by (subst scanObstacles.simps) simp

text \<open>
  A scan from index \<open>i\<close> that meets no overlap scrolls every obstacle from \<open>i\<close> on and
  raises \<open>levelDone\<close> exactly when the mode is LEVEL and the last obstacle has passed
  the left edge.
\<close>

lemma scan_no_hit:
  assumes "\<forall>j. i \<le> j \<and> j < length (levelObstacles s) \<longrightarrow>
             \<not> aabb pX pY pW pH (spec_scrolled dx (levelObstacles s ! j))"
  shows "scanObstacles dx pX pY pW pH i ld s =
     Scanned (s\<lparr>levelObstacles := take i (levelObstacles s) @
                                   map (spec_scrolled dx) (drop i (levelObstacles s))\<rparr>)
             (ld \<or> (gameState s = LEVEL \<and> i < length (levelObstacles s) \<and>
                    o_x (levelObstacles s ! (length (levelObstacles s) - 1)) - dx
                      < - o_width (levelObstacles s ! (length (levelObstacles s) - 1))))"
  using assms
proof (induction "length (levelObstacles s) - i" arbitrary: i s ld)
  case 0
  then have "\<not> i < length (levelObstacles s)" by simp
  then show ?case by (simp add: scan_end)
next
  case (Suc n)
  define obs where "obs = levelObstacles s"
  define obs1 where "obs1 = obs[i := spec_scrolled dx (obs ! i)]"
  define s1 where "s1 = s\<lparr>levelObstacles := obs1\<rparr>"
  define ld1 where "ld1 \<longleftrightarrow> ld \<or> (gameState s = LEVEL \<and> o_x (obs ! i) - dx < - o_width (obs ! i) \<and>
                    i = length obs - 1)"
  from Suc.hyps(2) have i: "i < length obs" by (simp add: obs_def)
  have nohit: "\<not> aabb pX pY pW pH (spec_scrolled dx (obs ! i))"
    using Suc.prems i by (simp add: obs_def)
  have step: "scanObstacles dx pX pY pW pH i ld s = scanObstacles dx pX pY pW pH (i + 1) ld1 s1"
    using scan_step [of i s dx pX pY pW pH ld] i nohit
    by (simp add: obs_def obs1_def s1_def ld1_def)
  have s1_obs: "levelObstacles s1 = obs1" and s1_state: "gameState s1 = gameState s"
    by (simp_all add: s1_def)
  have len1: "length obs1 = length obs" by (simp add: obs1_def)
  have n: "n = length (levelObstacles s1) - (i + 1)"
    using Suc.hyps(2) by (simp add: s1_obs len1 obs_def)
  have pre: "\<forall>j. i + 1 \<le> j \<and> j < length (levelObstacles s1) \<longrightarrow>
             \<not> aabb pX pY pW pH (spec_scrolled dx (levelObstacles s1 ! j))"
    using Suc.prems by (simp add: s1_obs len1 obs1_def obs_def)
  have lists: "take (i + 1) obs1 @ map (spec_scrolled dx) (drop (i + 1) obs1)
      = take i obs @ map (spec_scrolled dx) (drop i obs)"
    using i by (simp add: obs1_def take_Suc_conv_app_nth Cons_nth_drop_Suc [symmetric])
  have flag: "(ld1 \<or> (gameState s = LEVEL \<and> i + 1 < length obs \<and>
                 o_x (obs1 ! (length obs - 1)) - dx < - o_width (obs1 ! (length obs - 1))))
             = (ld \<or> (gameState s = LEVEL \<and> i < length obs \<and>
                    o_x (obs ! (length obs - 1)) - dx < - o_width (obs ! (length obs - 1))))"
  proof (cases "i + 1 < length obs")
    case True
    then have ne: "i \<noteq> length obs - 1" by simp
    then have "obs1 ! (length obs - 1) = obs ! (length obs - 1)"
      by (simp add: obs1_def)
    then show ?thesis
      using True ne i by (simp add: ld1_def)
  next
    case False
    with i have e: "i = length obs - 1" by simp
    have "i + 1 < length obs \<longleftrightarrow> False" using False by simp
    then show ?thesis
      unfolding ld1_def using i e by auto
  qed
  have "scanObstacles dx pX pY pW pH (i + 1) ld1 s1 =
     Scanned (s1\<lparr>levelObstacles := take (i + 1) (levelObstacles s1) @
                                   map (spec_scrolled dx) (drop (i + 1) (levelObstacles s1))\<rparr>)
             (ld1 \<or> (gameState s1 = LEVEL \<and> i + 1 < length (levelObstacles s1) \<and>
                    o_x (levelObstacles s1 ! (length (levelObstacles s1) - 1)) - dx
                      < - o_width (levelObstacles s1 ! (length (levelObstacles s1) - 1))))"
    by (rule Suc.hyps(1) [OF n pre])
  also have "s1\<lparr>levelObstacles := take (i + 1) (levelObstacles s1) @
                                   map (spec_scrolled dx) (drop (i + 1) (levelObstacles s1))\<rparr>
      = s\<lparr>levelObstacles := take i obs @ map (spec_scrolled dx) (drop i obs)\<rparr>"
    unfolding s1_obs lists by (simp add: s1_def)
  finally show ?case
    unfolding step s1_obs s1_state len1 flag by (simp only: obs_def)
qed

text \<open>
  A scan from index \<open>i\<close> whose first overlap is at index \<open>k\<close> scrolls the obstacles
  \<open>i\<close> to \<open>k\<close>, leaves the later ones alone and returns through \<open>resetGame\<close>.
\<close>

lemma scan_hit:
  assumes "i \<le> k" and "k < length (levelObstacles s)"
    and "aabb pX pY pW pH (spec_scrolled dx (levelObstacles s ! k))"
    and "\<forall>j. i \<le> j \<and> j < k \<longrightarrow> \<not> aabb pX pY pW pH (spec_scrolled dx (levelObstacles s ! j))"
  shows "scanObstacles dx pX pY pW pH i ld s =
     Returned (resetGame (s\<lparr>levelObstacles :=
        take i (levelObstacles s) @
        map (spec_scrolled dx) (take (Suc k - i) (drop i (levelObstacles s))) @
        drop (Suc k) (levelObstacles s)\<rparr>))"
  using assms
proof (induction "k - i" arbitrary: i s ld)
  case 0
  then have ik: "i = k" by simp
  have i: "i < length (levelObstacles s)" using 0 by simp
  have "(levelObstacles s)[k := spec_scrolled dx (levelObstacles s ! k)] =
        take k (levelObstacles s) @ map (spec_scrolled dx) (take (Suc 0) (drop k (levelObstacles s))) @
        drop (Suc k) (levelObstacles s)"
    using "0.prems"(2)
    by (simp add: upd_conv_take_nth_drop Cons_nth_drop_Suc [symmetric])
  then show ?case
    using scan_step [OF i] "0.prems"(3) ik by simp
next
  case (Suc n)
  let ?obs = "levelObstacles s"
  let ?s1 = "s\<lparr>levelObstacles := ?obs[i := spec_scrolled dx (?obs ! i)]\<rparr>"
  let ?ld1 = "ld \<or> (gameState s = LEVEL \<and> o_x (?obs ! i) - dx < - o_width (?obs ! i) \<and>
                    i = length ?obs - 1)"
  from Suc.hyps(2) have ik: "i < k" by simp
  with Suc.prems have i: "i < length ?obs" by simp
  have nohit: "\<not> aabb pX pY pW pH (spec_scrolled dx (?obs ! i))"
    using Suc.prems ik by simp
  have step: "scanObstacles dx pX pY pW pH i ld s = scanObstacles dx pX pY pW pH (i + 1) ?ld1 ?s1"
    using scan_step [OF i] nohit by simp
  have n: "n = k - (i + 1)" using Suc.hyps(2) by simp
  have p1: "i + 1 \<le> k" using ik by simp
  have p2: "k < length (levelObstacles ?s1)" using Suc.prems by simp
  have p3: "aabb pX pY pW pH (spec_scrolled dx (levelObstacles ?s1 ! k))"
    using Suc.prems ik by simp
  have p4: "\<forall>j. i + 1 \<le> j \<and> j < k \<longrightarrow> \<not> aabb pX pY pW pH (spec_scrolled dx (levelObstacles ?s1 ! j))"
    using Suc.prems by simp
  have tk: "take (Suc k - i) (drop i ?obs) = ?obs ! i # take (Suc k - (i + 1)) (drop (i + 1) ?obs)"
    using i ik by (simp add: Cons_nth_drop_Suc [symmetric] Suc_diff_le)
  have lists: "take (i + 1) (levelObstacles ?s1) @
        map (spec_scrolled dx) (take (Suc k - (i + 1)) (drop (i + 1) (levelObstacles ?s1))) @
        drop (Suc k) (levelObstacles ?s1)
      = take i ?obs @ map (spec_scrolled dx) (take (Suc k - i) (drop i ?obs)) @ drop (Suc k) ?obs"
    unfolding tk using i ik by (simp add: take_Suc_conv_app_nth)
  show ?case
    unfolding step
    using Suc.hyps(1) [OF n p1 p2 p3 p4, of ?ld1] lists
    by simp
qed

section \<open>One call of updateObstacles\<close>

lemma updateObstacles_unfold:
  "updateObstacles delta s =
     (case scanObstacles (spec_scrollSpeed s * delta)
             (p_x (player s) + p_width (player s) * hitboxOffsetX (player s))
             (p_y (player s) + p_height (player s) * hitboxOffsetY (player s))
             (p_width (player s) * hitboxWidthScale (player s))
             (p_height (player s) * hitboxHeightScale (player s)) 0 False s of
        Returned s' \<Rightarrow> s'
      | Scanned s' levelDone \<Rightarrow>
          (if levelDone then
             (resetPlayerAndObstacles (s'\<lparr>gameState := LEVEL_COMPLETE\<rparr>))
               \<lparr>currentLevel := currentLevel s' + 1\<rparr>
           else s'))"
  by (simp add: updateObstacles_def spec_scrollSpeed_def Let_def resetPlayerAndObstacles_def
        split: scan_exit.splits)

lemma resetGame_eq:
  "resetGame s = s\<lparr>previousGameState := gameState s,
                   player := (player s)\<lparr>velocityY := 0, isGrounded := True\<rparr>,
                   gameState := GAME_OVER\<rparr>"
  by (simp add: resetGame_def Let_def)

lemma resetPlayerAndObstacles_eq:
  "resetPlayerAndObstacles s =
     s\<lparr>player := (player s)\<lparr>p_x := canvas_width s * 0.05,
                              p_y := canvas_height s - p_height (player s) - groundHeight s,
                              velocityY := 0, isGrounded := True\<rparr>,
       levelObstacles := []\<rparr>"
  by (simp add: resetPlayerAndObstacles_def Let_def)

lemma updateObstacles_hit:
  assumes "k < length (levelObstacles s)"
    and "spec_collides s (spec_scrolled (spec_scrollSpeed s * delta) (levelObstacles s ! k))"
    and "\<forall>j<k. \<not> spec_collides s (spec_scrolled (spec_scrollSpeed s * delta) (levelObstacles s ! j))"
  shows "updateObstacles delta s =
     s\<lparr>levelObstacles := map (spec_scrolled (spec_scrollSpeed s * delta)) (take (Suc k) (levelObstacles s)) @
                          drop (Suc k) (levelObstacles s),
       previousGameState := gameState s,
       player := (player s)\<lparr>velocityY := 0, isGrounded := True\<rparr>,
       gameState := GAME_OVER\<rparr>"
proof -
  have "scanObstacles (spec_scrollSpeed s * delta)
             (p_x (player s) + p_width (player s) * hitboxOffsetX (player s))
             (p_y (player s) + p_height (player s) * hitboxOffsetY (player s))
             (p_width (player s) * hitboxWidthScale (player s))
             (p_height (player s) * hitboxHeightScale (player s)) 0 False s
      = Returned (resetGame (s\<lparr>levelObstacles :=
        take 0 (levelObstacles s) @
        map (spec_scrolled (spec_scrollSpeed s * delta)) (take (Suc k - 0) (drop 0 (levelObstacles s))) @
        drop (Suc k) (levelObstacles s)\<rparr>))"
    using assms by (intro scan_hit) (simp_all add: spec_collides_def)
  then show ?thesis
    by (simp add: updateObstacles_unfold resetGame_eq)
qed

lemma updateObstacles_no_hit:
  assumes "\<forall>j<length (levelObstacles s).
             \<not> spec_collides s (spec_scrolled (spec_scrollSpeed s * delta) (levelObstacles s ! j))"
  shows "updateObstacles delta s =
     (if gameState s = LEVEL \<and> levelObstacles s \<noteq> [] \<and>
         o_x (last (levelObstacles s)) - spec_scrollSpeed s * delta < - o_width (last (levelObstacles s))
      then s\<lparr>gameState := LEVEL_COMPLETE,
             player := (player s)\<lparr>p_x := canvas_width s * 0.05,
                              p_y := canvas_height s - p_height (player s) - groundHeight s,
                              velocityY := 0, isGrounded := True\<rparr>,
             levelObstacles := [],
             currentLevel := currentLevel s + 1\<rparr>
      else s\<lparr>levelObstacles := map (spec_scrolled (spec_scrollSpeed s * delta)) (levelObstacles s)\<rparr>)"
proof -
  have "scanObstacles (spec_scrollSpeed s * delta)
             (p_x (player s) + p_width (player s) * hitboxOffsetX (player s))
             (p_y (player s) + p_height (player s) * hitboxOffsetY (player s))
             (p_width (player s) * hitboxWidthScale (player s))
             (p_height (player s) * hitboxHeightScale (player s)) 0 False s
      = Scanned (s\<lparr>levelObstacles := take 0 (levelObstacles s) @
                                   map (spec_scrolled (spec_scrollSpeed s * delta)) (drop 0 (levelObstacles s))\<rparr>)
             (False \<or> (gameState s = LEVEL \<and> 0 < length (levelObstacles s) \<and>
                    o_x (levelObstacles s ! (length (levelObstacles s) - 1)) - spec_scrollSpeed s * delta
                      < - o_width (levelObstacles s ! (length (levelObstacles s) - 1))))"
    using assms by (intro scan_no_hit) (simp_all add: spec_collides_def)
  moreover have "levelObstacles s \<noteq> [] \<Longrightarrow>
      levelObstacles s ! (length (levelObstacles s) - 1) = last (levelObstacles s)"
    by (simp add: last_conv_nth)
  ultimately show ?thesis
    by (auto simp add: updateObstacles_unfold resetPlayerAndObstacles_eq)
qed

text \<open>Among the indices that satisfy a predicate there is a first one.\<close>

lemma first_hit:
  assumes "\<exists>j<n. P (j::nat)"
  obtains k where "k < n" and "P k" and "\<forall>j<k. \<not> P j"
proof -
  define k where "k = (LEAST j. j < n \<and> P j)"
  from assms obtain j where j: "j < n \<and> P j" by blast
  then have "k < n \<and> P k" unfolding k_def by (rule LeastI)
  moreover have "\<forall>i<k. \<not> P i"
  proof (intro allI impI)
    fix i assume "i < k"
    then have "\<not> (i < n \<and> P i)" unfolding k_def by (rule not_less_Least)
    moreover have "i < n" using \<open>i < k\<close> \<open>k < n \<and> P k\<close> by simp
    ultimately show "\<not> P i" by simp
  qed
  ultimately show ?thesis using that by blast
qed


text \<open>
  C1. In an active play state (LEVEL or INFINITE) \<open>updateObstacles\<close> scrolls with the speed
  \<open>(mode = LEVEL ? 250 : 300) + (mode = INFINITE ? floor(score/100)*5 : 0)\<close> times \<open>delta\<close>
  and tests the shrunken hitbox with the strict overlap test, in index order. When the
  first overlap is at index \<open>k\<close>, the obstacles up to \<open>k\<close> are scrolled, the later ones
  are left as they were, previousGameState records the mode, velocityY is zeroed,
  grounded is set and the state is GAME_OVER; nothing else changes, so the level index
  is not advanced even when the last obstacle has left the screen. When no obstacle
  overlaps, the state is not GAME_OVER, and unless the level completes every obstacle
  is scrolled and nothing else changes.
\<close>

theorem updateObstacles_scroll_and_collision:
  assumes "gameState s = LEVEL \<or> gameState s = INFINITE"
  shows "(\<forall>k<length (levelObstacles s).
            spec_collides s (spec_scrolled (spec_scrollSpeed s * delta) (levelObstacles s ! k)) \<and>
            (\<forall>j<k. \<not> spec_collides s (spec_scrolled (spec_scrollSpeed s * delta) (levelObstacles s ! j)))
            \<longrightarrow>
            updateObstacles delta s =
              s\<lparr>levelObstacles :=
                   map (spec_scrolled (spec_scrollSpeed s * delta)) (take (Suc k) (levelObstacles s)) @
                   drop (Suc k) (levelObstacles s),
                previousGameState := gameState s,
                player := (player s)\<lparr>velocityY := 0, isGrounded := True\<rparr>,
                gameState := GAME_OVER\<rparr>) \<and>
         ((\<forall>j<length (levelObstacles s).
             \<not> spec_collides s (spec_scrolled (spec_scrollSpeed s * delta) (levelObstacles s ! j)))
          \<longrightarrow>
            gameState (updateObstacles delta s) \<noteq> GAME_OVER \<and>
            (gameState (updateObstacles delta s) = gameState s \<longrightarrow>
               updateObstacles delta s =
                 s\<lparr>levelObstacles :=
                      map (spec_scrolled (spec_scrollSpeed s * delta)) (levelObstacles s)\<rparr>))"
proof (intro conjI allI impI)
  fix k
  assume "k < length (levelObstacles s)"
    and "spec_collides s (spec_scrolled (spec_scrollSpeed s * delta) (levelObstacles s ! k)) \<and>
         (\<forall>j<k. \<not> spec_collides s (spec_scrolled (spec_scrollSpeed s * delta) (levelObstacles s ! j)))"
  then show "updateObstacles delta s =
              s\<lparr>levelObstacles :=
                   map (spec_scrolled (spec_scrollSpeed s * delta)) (take (Suc k) (levelObstacles s)) @
                   drop (Suc k) (levelObstacles s),
                previousGameState := gameState s,
                player := (player s)\<lparr>velocityY := 0, isGrounded := True\<rparr>,
                gameState := GAME_OVER\<rparr>"
    by (simp add: updateObstacles_hit)
next
  assume a: "\<forall>j<length (levelObstacles s).
             \<not> spec_collides s (spec_scrolled (spec_scrollSpeed s * delta) (levelObstacles s ! j))"
  show "gameState (updateObstacles delta s) \<noteq> GAME_OVER"
    using assms by (auto simp add: updateObstacles_no_hit [OF a])
  assume "gameState (updateObstacles delta s) = gameState s"
  then show "updateObstacles delta s =
                 s\<lparr>levelObstacles :=
                      map (spec_scrolled (spec_scrollSpeed s * delta)) (levelObstacles s)\<rparr>"
    using assms by (auto simp add: updateObstacles_no_hit [OF a] split: if_splits)
qed

theorem updateObstacles_scroll_and_collision_witness:
  "(gameState crash_game = LEVEL \<or> gameState crash_game = INFINITE) \<and>
   spec_scrollSpeed crash_game = 250 \<and>
   \<not> spec_collides crash_game (spec_scrolled 5 (low_obstacle (-100))) \<and>
   spec_collides crash_game (spec_scrolled 5 (low_obstacle 132)) \<and>
   updateObstacles (1 / 50) crash_game =
     crash_game\<lparr>levelObstacles := [low_obstacle (-105), low_obstacle 127, low_obstacle 600],
       previousGameState := LEVEL,
       player := (player crash_game)\<lparr>velocityY := 0, isGrounded := True\<rparr>,
       gameState := GAME_OVER\<rparr>"
  using updateObstacles_scroll_and_collision [of crash_game "1 / 50", THEN conjunct1, rule_format, of 1]
  by (simp add: crash_game_def example_game_def resizeCanvas_eq initial_game_def
        initial_player_def spec_collides_def aabb_def spec_scrolled_def spec_scrollSpeed_def
        low_obstacle_def)

text \<open>A tick on which some obstacle overlaps ends in GAME_OVER with the level index kept.\<close>

lemma updateObstacles_any_hit:
  assumes "\<exists>j<length (levelObstacles s).
             spec_collides s (spec_scrolled (spec_scrollSpeed s * delta) (levelObstacles s ! j))"
  shows "gameState (updateObstacles delta s) = GAME_OVER \<and>
         currentLevel (updateObstacles delta s) = currentLevel s \<and>
         score (updateObstacles delta s) = score s \<and>
         length (levelObstacles (updateObstacles delta s)) = length (levelObstacles s)"
proof -
  obtain k where "k < length (levelObstacles s)"
    and "spec_collides s (spec_scrolled (spec_scrollSpeed s * delta) (levelObstacles s ! k))"
    and "\<forall>j<k. \<not> spec_collides s (spec_scrolled (spec_scrollSpeed s * delta) (levelObstacles s ! j))"
    using first_hit [OF assms] by blast
  then show ?thesis
    by (simp add: updateObstacles_hit)
qed

text \<open>
  C2. In LEVEL mode, when during a tick no obstacle overlaps the hitbox and the last
  obstacle, after its scroll by \<open>250 * delta\<close>, satisfies \<open>x < -width\<close>, the tick moves
  LEVEL to LEVEL_COMPLETE, adds exactly 1 to currentLevel, resets the player and
  empties the obstacle sequence, changing nothing else. The transition is taken after
  the scan and only then: the tick ends in LEVEL_COMPLETE exactly when the sequence is
  not empty, no obstacle of the whole sequence overlaps, and the last one has passed;
  otherwise currentLevel keeps its value. In particular, when the last obstacle
  satisfies \<open>x < -width\<close> already before a tick with \<open>delta \<ge> 0\<close> and no obstacle
  overlaps on that tick, the tick completes the level.
\<close>

theorem updateObstacles_level_complete:
  assumes "gameState s = LEVEL"
  shows "(levelObstacles s \<noteq> [] \<and>
          (\<forall>j<length (levelObstacles s).
             \<not> spec_collides s (spec_scrolled (250 * delta) (levelObstacles s ! j))) \<and>
          o_x (last (levelObstacles s)) - 250 * delta < - o_width (last (levelObstacles s))
          \<longrightarrow>
          updateObstacles delta s =
            s\<lparr>gameState := LEVEL_COMPLETE,
              player := (player s)\<lparr>p_x := canvas_width s * 0.05,
                 p_y := canvas_height s - p_height (player s) - groundHeight s,
                 velocityY := 0, isGrounded := True\<rparr>,
              levelObstacles := [],
              currentLevel := currentLevel s + 1\<rparr>) \<and>
         (gameState (updateObstacles delta s) = LEVEL_COMPLETE \<longleftrightarrow>
            levelObstacles s \<noteq> [] \<and>
            (\<forall>j<length (levelObstacles s).
               \<not> spec_collides s (spec_scrolled (250 * delta) (levelObstacles s ! j))) \<and>
            o_x (last (levelObstacles s)) - 250 * delta < - o_width (last (levelObstacles s))) \<and>
         currentLevel (updateObstacles delta s) =
           (if gameState (updateObstacles delta s) = LEVEL_COMPLETE
            then currentLevel s + 1 else currentLevel s) \<and>
         (0 \<le> delta \<and> levelObstacles s \<noteq> [] \<and>
          (\<forall>j<length (levelObstacles s).
             \<not> spec_collides s (spec_scrolled (250 * delta) (levelObstacles s ! j))) \<and>
          o_x (last (levelObstacles s)) < - o_width (last (levelObstacles s))
          \<longrightarrow>
          gameState (updateObstacles delta s) = LEVEL_COMPLETE \<and>
          currentLevel (updateObstacles delta s) = currentLevel s + 1)"
proof -
  have sp: "spec_scrollSpeed s = 250"
    using assms by (simp add: spec_scrollSpeed_def)
  have main: "(levelObstacles s \<noteq> [] \<and>
          (\<forall>j<length (levelObstacles s).
             \<not> spec_collides s (spec_scrolled (250 * delta) (levelObstacles s ! j))) \<and>
          o_x (last (levelObstacles s)) - 250 * delta < - o_width (last (levelObstacles s))
          \<longrightarrow>
          updateObstacles delta s =
            s\<lparr>gameState := LEVEL_COMPLETE,
              player := (player s)\<lparr>p_x := canvas_width s * 0.05,
                 p_y := canvas_height s - p_height (player s) - groundHeight s,
                 velocityY := 0, isGrounded := True\<rparr>,
              levelObstacles := [],
              currentLevel := currentLevel s + 1\<rparr>) \<and>
         (gameState (updateObstacles delta s) = LEVEL_COMPLETE \<longleftrightarrow>
            levelObstacles s \<noteq> [] \<and>
            (\<forall>j<length (levelObstacles s).
               \<not> spec_collides s (spec_scrolled (250 * delta) (levelObstacles s ! j))) \<and>
            o_x (last (levelObstacles s)) - 250 * delta < - o_width (last (levelObstacles s))) \<and>
         currentLevel (updateObstacles delta s) =
           (if gameState (updateObstacles delta s) = LEVEL_COMPLETE
            then currentLevel s + 1 else currentLevel s)"
  proof (cases "\<exists>j<length (levelObstacles s).
             spec_collides s (spec_scrolled (spec_scrollSpeed s * delta) (levelObstacles s ! j))")
    case True
    from updateObstacles_any_hit [OF True] True show ?thesis
      unfolding sp by auto
  next
    case False
    then have a: "\<forall>j<length (levelObstacles s).
             \<not> spec_collides s (spec_scrolled (spec_scrollSpeed s * delta) (levelObstacles s ! j))"
      by blast
    show ?thesis
      using assms a updateObstacles_no_hit [OF a] unfolding sp by auto
  qed
  have mono: "0 \<le> delta \<Longrightarrow> x < w \<Longrightarrow> x - 250 * delta < w" for x w :: real
    by (smt (verit) mult_nonneg_nonneg)
  have before: "0 \<le> delta \<and> levelObstacles s \<noteq> [] \<and>
          (\<forall>j<length (levelObstacles s).
             \<not> spec_collides s (spec_scrolled (250 * delta) (levelObstacles s ! j))) \<and>
          o_x (last (levelObstacles s)) < - o_width (last (levelObstacles s))
          \<longrightarrow>
          gameState (updateObstacles delta s) = LEVEL_COMPLETE \<and>
          currentLevel (updateObstacles delta s) = currentLevel s + 1"
  proof (intro impI, elim conjE)
    assume d: "0 \<le> delta" and ne: "levelObstacles s \<noteq> []"
      and a: "\<forall>j<length (levelObstacles s).
             \<not> spec_collides s (spec_scrolled (250 * delta) (levelObstacles s ! j))"
      and p: "o_x (last (levelObstacles s)) < - o_width (last (levelObstacles s))"
    have a': "\<forall>j<length (levelObstacles s).
             \<not> spec_collides s (spec_scrolled (spec_scrollSpeed s * delta) (levelObstacles s ! j))"
      using a unfolding sp .
    show "gameState (updateObstacles delta s) = LEVEL_COMPLETE \<and>
          currentLevel (updateObstacles delta s) = currentLevel s + 1"
      using assms ne mono [OF d p] unfolding updateObstacles_no_hit [OF a'] sp by simp
  qed
  from main before show ?thesis by blast
qed

theorem updateObstacles_level_complete_witness:
  "gameState cleared_game = LEVEL \<and>
   levelObstacles cleared_game \<noteq> [] \<and>
   o_x (last (levelObstacles cleared_game)) - 250 * (1 / 50) = - 63 \<and>
   gameState (updateObstacles (1 / 50) cleared_game) = LEVEL_COMPLETE \<and>
   currentLevel cleared_game = 7 \<and>
   updateObstacles (1 / 50) cleared_game =
     cleared_game\<lparr>gameState := LEVEL_COMPLETE,
       player := (player cleared_game)\<lparr>p_x := 50, p_y := 474, velocityY := 0, isGrounded := True\<rparr>,
       levelObstacles := [],
       currentLevel := 8\<rparr>"
  using updateObstacles_level_complete [of cleared_game "1 / 50", THEN conjunct1]
  by (simp add: cleared_game_def example_game_def resizeCanvas_eq initial_game_def
        initial_player_def spec_collides_def aabb_def spec_scrolled_def
        low_obstacle_def All_less_Suc numeral_2_eq_2)

section \<open>The obstacle generator\<close>

text \<open>The loop of \<open>generateObstacles\<close> when it stops and when it runs one more iteration.\<close>

lemma generateLoop_stop:
  "\<not> tot < maxDist \<Longrightarrow>
   generateLoop rnd d maxDist baseH tallH maxW minGap n x tot s = Some s"
  by (subst generateLoop.simps) simp

lemma generateLoop_step:
  "tot < maxDist \<Longrightarrow>
   generateLoop rnd d maxDist baseH tallH maxW minGap n x tot s =
   generateLoop rnd d maxDist baseH tallH maxW minGap (n + 3)
     (x + max minGap (420 - d * 60 + rnd n * 100) + min maxW (baseH * 0.6 + d * 8 + rnd (n + 1) * 18))
     (x + max minGap (420 - d * 60 + rnd n * 100) + min maxW (baseH * 0.6 + d * 8 + rnd (n + 1) * 18))
     (s\<lparr>levelObstacles := levelObstacles s @
        [\<lparr>o_x = x + max minGap (420 - d * 60 + rnd n * 100),
          o_y = canvas_height s - groundHeight s -
                (if rnd (n + 2) < 0.25 then tallH + d * 6 else baseH),
          o_width = min maxW (baseH * 0.6 + d * 8 + rnd (n + 1) * 18),
          o_height = (if rnd (n + 2) < 0.25 then tallH + d * 6 else baseH)\<rparr>]\<rparr>)"
  by (subst generateLoop.simps) (simp add: Let_def)

text \<open>
  Induction over the iterations of a loop that returns: a property that holds when the
  loop stops and is carried backwards over one iteration holds for every run.
\<close>

lemma generateLoop_induct [consumes 1, case_names stop step]:
  assumes ret: "generateLoop rnd d maxDist baseH tallH maxW minGap n x tot s = Some y"
    and stop: "\<And>n x tot s. \<not> tot < maxDist \<Longrightarrow> P n x tot s s"
    and step: "\<And>n x tot s y. tot < maxDist \<Longrightarrow>
       P (n + 3)
         (x + max minGap (420 - d * 60 + rnd n * 100) + min maxW (baseH * 0.6 + d * 8 + rnd (n + 1) * 18))
         (x + max minGap (420 - d * 60 + rnd n * 100) + min maxW (baseH * 0.6 + d * 8 + rnd (n + 1) * 18))
         (s\<lparr>levelObstacles := levelObstacles s @
            [\<lparr>o_x = x + max minGap (420 - d * 60 + rnd n * 100),
              o_y = canvas_height s - groundHeight s -
                    (if rnd (n + 2) < 0.25 then tallH + d * 6 else baseH),
              o_width = min maxW (baseH * 0.6 + d * 8 + rnd (n + 1) * 18),
              o_height = (if rnd (n + 2) < 0.25 then tallH + d * 6 else baseH)\<rparr>]\<rparr>) y
       \<Longrightarrow> P n x tot s y"
  shows "P n x tot s y"
proof -
  note R = generateLoop.raw_induct
       [where xa = "((((((((((rnd, d), maxDist), baseH), tallH), maxW), minGap), n), x), tot), s)"
          and y = y
          and P = "\<lambda>rnd' d' m' b' t' w' g' n x tot s y.
             (rnd' = rnd \<and> d' = d \<and> m' = maxDist \<and> b' = baseH \<and> t' = tallH \<and>
              w' = maxW \<and> g' = minGap) \<longrightarrow> P n x tot s y", simplified]
  show ?thesis
    apply (rule R)
    subgoal premises prems for generateLoop rnd' d' m' b' t' w' g' n x tot s y
      using prems stop step
      by (auto simp: Let_def split: if_splits)
    subgoal using ret by simp
    done
qed


lemma generateLoop_placed:
  assumes "generateLoop rnd d maxDist baseH tallH maxW minGap n x tot s = Some y"
  shows "\<exists>new. y = s\<lparr>levelObstacles := levelObstacles s @ new\<rparr> \<and>
           placed_from rnd d maxDist baseH tallH maxW minGap
             (canvas_height s - groundHeight s) new n x tot"
  using assms
proof (induction rule: generateLoop_induct)
  case (stop n x tot s)
  have "s = s\<lparr>levelObstacles := levelObstacles s @ []\<rparr> \<and>
        placed_from rnd d maxDist baseH tallH maxW minGap
             (canvas_height s - groundHeight s) [] n x tot"
    using stop by simp
  then show ?case by blast
next
  case (step n x tot s y)
  define o1 where "o1 = \<lparr>o_x = x + max minGap (420 - d * 60 + rnd n * 100),
              o_y = canvas_height s - groundHeight s -
                    (if rnd (n + 2) < 0.25 then tallH + d * 6 else baseH),
              o_width = min maxW (baseH * 0.6 + d * 8 + rnd (n + 1) * 18),
              o_height = (if rnd (n + 2) < 0.25 then tallH + d * 6 else baseH)\<rparr>"
  define s1 where "s1 = s\<lparr>levelObstacles := levelObstacles s @ [o1]\<rparr>"
  have fields: "o_x o1 = x + max minGap (420 - d * 60 + rnd n * 100)"
    "o_width o1 = min maxW (baseH * 0.6 + d * 8 + rnd (n + 1) * 18)"
    "o_height o1 = (if rnd (n + 2) < 0.25 then tallH + d * 6 else baseH)"
    "o_y o1 = canvas_height s - groundHeight s - o_height o1"
    by (simp_all add: o1_def)
  have "\<exists>new. y = s1\<lparr>levelObstacles := levelObstacles s1 @ new\<rparr> \<and>
           placed_from rnd d maxDist baseH tallH maxW minGap
             (canvas_height s1 - groundHeight s1) new (n + 3)
             (o_x o1 + o_width o1) (o_x o1 + o_width o1)"
    using step(2) unfolding s1_def fields o1_def [symmetric] .
  then obtain new where
    y: "y = s1\<lparr>levelObstacles := levelObstacles s1 @ new\<rparr>" and
    pl: "placed_from rnd d maxDist baseH tallH maxW minGap
             (canvas_height s1 - groundHeight s1) new (n + 3)
             (o_x o1 + o_width o1) (o_x o1 + o_width o1)"
    by blast
  have "y = s\<lparr>levelObstacles := levelObstacles s @ (o1 # new)\<rparr>"
    using y by (simp add: s1_def)
  moreover have "placed_from rnd d maxDist baseH tallH maxW minGap
             (canvas_height s - groundHeight s) (o1 # new) n x tot"
    using step(1) pl fields by (simp add: s1_def)
  ultimately show ?case by blast
qed

lemma placed_from_nth:
  assumes "placed_from rnd d maxDist baseH tallH maxW minGap line new n x tot"
    and "i < length new"
  shows "o_x (new ! i) =
           (if i = 0 then x else o_x (new ! (i - 1)) + o_width (new ! (i - 1))) +
           max minGap (420 - d * 60 + rnd (n + 3 * i) * 100) \<and>
         o_width (new ! i) = min maxW (baseH * 0.6 + d * 8 + rnd (n + 3 * i + 1) * 18) \<and>
         o_height (new ! i) = (if rnd (n + 3 * i + 2) < 0.25 then tallH + d * 6 else baseH) \<and>
         o_y (new ! i) = line - o_height (new ! i) \<and>
         (if i = 0 then tot else o_x (new ! (i - 1)) + o_width (new ! (i - 1))) < maxDist"
  using assms
proof (induction new arbitrary: n x tot i)
  case Nil
  then show ?case by simp
next
  case (Cons o1 rest)
  show ?case
  proof (cases i)
    case 0
    then show ?thesis using Cons.prems by simp
  next
    case (Suc j)
    have j: "j < length rest" using Cons.prems(2) Suc by simp
    have pl: "placed_from rnd d maxDist baseH tallH maxW minGap line rest (n + 3)
       (o_x o1 + o_width o1) (o_x o1 + o_width o1)"
      using Cons.prems(1) unfolding placed_from.simps by blast
    have e: "n + 3 + 3 * j = n + 3 * Suc j" by simp
    show ?thesis
      using Cons.IH [OF pl j] unfolding Suc e
      by (cases j) simp_all
  qed
qed

lemma placed_from_end:
  assumes "placed_from rnd d maxDist baseH tallH maxW minGap line new n x tot"
  shows "\<not> (if new = [] then tot else o_x (last new) + o_width (last new)) < maxDist"
  using assms
  by (induction new arbitrary: n x tot) auto

text \<open>
  The loop returns whenever every iteration moves the cursor by at least the positive
  minimum gap: widths are not negative when the draws, \<open>maxW\<close> and the base width are not.
\<close>

lemma generateLoop_terminates:
  assumes "0 < minGap" and "0 \<le> maxW" and "0 \<le> baseH * 0.6 + d * 8" and "\<forall>k. 0 \<le> rnd k"
  shows "\<exists>y. generateLoop rnd d maxDist baseH tallH maxW minGap n x tot s = Some y"
proof -
  have adv: "x + minGap \<le> x + max minGap (420 - d * 60 + rnd n * 100) +
                min maxW (baseH * 0.6 + d * 8 + rnd (n + 1) * 18)" for x n
  proof -
    have "0 \<le> rnd (n + 1) * 18" using assms(4) by simp
    then have "0 \<le> min maxW (baseH * 0.6 + d * 8 + rnd (n + 1) * 18)"
      using assms(2,3) by simp
    moreover have "minGap \<le> max minGap (420 - d * 60 + rnd n * 100)"
      by simp
    ultimately show ?thesis by linarith
  qed
  have main: "\<exists>y. generateLoop rnd d maxDist baseH tallH maxW minGap n x x s = Some y"
    if "maxDist - x \<le> real m * minGap" for m n x s
    using that
  proof (induction m arbitrary: n x s)
    case 0
    then have "\<not> x < maxDist" by simp
    then show ?case by (simp add: generateLoop_stop)
  next
    case (Suc m)
    show ?case
    proof (cases "x < maxDist")
      case False
      then show ?thesis by (simp add: generateLoop_stop)
    next
      case True
      let ?x2 = "x + max minGap (420 - d * 60 + rnd n * 100) +
                min maxW (baseH * 0.6 + d * 8 + rnd (n + 1) * 18)"
      have "maxDist - ?x2 \<le> maxDist - x - minGap" using adv [of x n] by simp
      also have "\<dots> \<le> real m * minGap" using Suc.prems by (simp add: algebra_simps)
      finally have "maxDist - ?x2 \<le> real m * minGap" .
      from Suc.IH [OF this] show ?thesis
        by (simp add: generateLoop_step [OF True])
    qed
  qed
  have enough: "\<exists>m. maxDist - x \<le> real m * minGap" for x
  proof -
    obtain m where "(maxDist - x) / minGap \<le> real m"
      using real_arch_simple by blast
    then have "maxDist - x \<le> real m * minGap"
      using assms(1) by (simp add: pos_divide_le_eq)
    then show ?thesis by blast
  qed
  show ?thesis
  proof (cases "tot < maxDist")
    case False
    then show ?thesis by (simp add: generateLoop_stop)
  next
    case True
    let ?x2 = "x + max minGap (420 - d * 60 + rnd n * 100) +
                min maxW (baseH * 0.6 + d * 8 + rnd (n + 1) * 18)"
    obtain m where "maxDist - ?x2 \<le> real m * minGap" using enough by blast
    from main [OF this] show ?thesis
      by (simp add: generateLoop_step [OF True])
  qed
qed

lemma generateObstacles_unfold:
  "generateObstacles rnd isInfinite s =
     generateLoop rnd (spec_difficulty isInfinite s)
       (if isInfinite then 999999999 else 800 + of_int (currentLevel s) * 100)
       (p_height (player s) * 1.05)
       (p_height (player s) * 2.0 + spec_difficulty isInfinite s * 4)
       (p_width (player s) * 2.4)
       (max (p_width (player s) * 1.6) 40)
       0 (canvas_width s * 0.6) 0 (s\<lparr>levelObstacles := []\<rparr>)"
  by (simp add: generateObstacles_def spec_difficulty_def Let_def)

text \<open>A call of \<open>generateObstacles\<close> that returns changes the obstacle list only.\<close>

lemma generateObstacles_placed:
  assumes "generateObstacles rnd isInfinite s = Some s'"
  shows "s' = s\<lparr>levelObstacles := levelObstacles s'\<rparr> \<and>
         placed_from rnd (spec_difficulty isInfinite s)
           (if isInfinite then 999999999 else 800 + of_int (currentLevel s) * 100)
           (p_height (player s) * 1.05)
           (p_height (player s) * 2.0 + spec_difficulty isInfinite s * 4)
           (p_width (player s) * 2.4)
           (max (p_width (player s) * 1.6) 40)
           (canvas_height s - groundHeight s)
           (levelObstacles s') 0 (canvas_width s * 0.6) 0"
proof -
  from assms obtain new where
    "s' = (s\<lparr>levelObstacles := []\<rparr>)\<lparr>levelObstacles := levelObstacles (s\<lparr>levelObstacles := []\<rparr>) @ new\<rparr>"
    and "placed_from rnd (spec_difficulty isInfinite s)
           (if isInfinite then 999999999 else 800 + of_int (currentLevel s) * 100)
           (p_height (player s) * 1.05)
           (p_height (player s) * 2.0 + spec_difficulty isInfinite s * 4)
           (p_width (player s) * 2.4)
           (max (p_width (player s) * 1.6) 40)
           (canvas_height (s\<lparr>levelObstacles := []\<rparr>) - groundHeight (s\<lparr>levelObstacles := []\<rparr>))
           new 0 (canvas_width s * 0.6) 0"
    unfolding generateObstacles_unfold
    using generateLoop_placed by blast
  then show ?thesis by simp
qed

text \<open>The difficulty is at least 1 from score 0 on and from level 1 on.\<close>

lemma spec_difficulty_nonneg:
  assumes "isInfinite \<longrightarrow> 0 \<le> score s" and "\<not> isInfinite \<longrightarrow> 1 \<le> currentLevel s"
  shows "1 \<le> spec_difficulty isInfinite s"
proof (cases isInfinite)
  case True
  then have "0 \<le> score s / 500" using assms(1) by simp
  then have "0 \<le> \<lfloor>score s / 500\<rfloor>" by simp
  then have "(0::real) \<le> of_int \<lfloor>score s / 500\<rfloor>" by simp
  then show ?thesis using True by (simp add: spec_difficulty_def)
next
  case False
  then have "(1::real) \<le> of_int (currentLevel s)" using assms(2) by simp
  then show ?thesis using False by (simp add: spec_difficulty_def)
qed

text \<open>
  \<open>generateObstacles\<close> returns in every state with a player of non-negative size, a
  non-negative score (infinite mode) or a level from 1 on (level mode), and draws that
  are not negative.
\<close>

lemma generateObstacles_terminates:
  assumes "0 \<le> p_width (player s)" and "0 \<le> p_height (player s)"
    and "isInfinite \<longrightarrow> 0 \<le> score s" and "\<not> isInfinite \<longrightarrow> 1 \<le> currentLevel s"
    and "\<forall>k. 0 \<le> rnd k"
  shows "\<exists>s'. generateObstacles rnd isInfinite s = Some s'"
proof -
  have d: "1 \<le> spec_difficulty isInfinite s"
    using assms(3,4) by (rule spec_difficulty_nonneg)
  have "0 \<le> p_height (player s) * 1.05 * 0.6" using assms(2) by simp
  moreover have "0 \<le> spec_difficulty isInfinite s * 8" using d by simp
  ultimately have b: "0 \<le> p_height (player s) * 1.05 * 0.6 + spec_difficulty isInfinite s * 8"
    by linarith
  have g: "(0::real) < max (p_width (player s) * 1.6) 40" by simp
  have w: "0 \<le> p_width (player s) * 2.4" using assms(1) by simp
  show ?thesis
    unfolding generateObstacles_unfold
    by (rule generateLoop_terminates [OF g w b assms(5)])
qed


text \<open>
  C4. When \<open>generateObstacles\<close> returns, only the obstacle list has changed, and with the
  difficulty \<open>1 + floor(score/500)*0.2\<close> (infinite mode) or \<open>1 + (currentLevel-1)*0.15\<close>
  (level mode) the \<open>i\<close>-th obstacle has
  x = cursor + max(max(player.width*1.6, 40), 420 - difficulty*60 + r*100),
  width = min(player.width*2.4, player.height*1.05*0.6 + difficulty*8 + r'*18),
  height = (player.height*2.0 + difficulty*4) + difficulty*6 when its third draw is below
  0.25 and player.height*1.05 otherwise, and y = groundLine - height, where the cursor
  starts at viewportWidth*0.6 and then is the right edge of the obstacle before, and
  \<open>r\<close>, \<open>r'\<close> and the third draw are the draws number 3i, 3i+1 and 3i+2. In level mode
  the loop places obstacles as long as the running total (0 at first, then the cursor)
  is below 800 + currentLevel*100, and stops the first time it is not.
\<close>

theorem generateObstacles_placement:
  assumes "generateObstacles rnd isInfinite s = Some s'"
  shows "s' = s\<lparr>levelObstacles := levelObstacles s'\<rparr> \<and>
    (\<forall>i<length (levelObstacles s').
       o_x (levelObstacles s' ! i) =
         spec_cursor s (levelObstacles s') i +
         spec_gap s (spec_difficulty isInfinite s) (rnd (3 * i)) \<and>
       o_width (levelObstacles s' ! i) =
         spec_width s (spec_difficulty isInfinite s) (rnd (3 * i + 1)) \<and>
       o_height (levelObstacles s' ! i) =
         spec_height s (spec_difficulty isInfinite s) (rnd (3 * i + 2)) \<and>
       o_y (levelObstacles s' ! i) =
         (canvas_height s - groundHeight s) - o_height (levelObstacles s' ! i)) \<and>
    (\<not> isInfinite \<longrightarrow>
       (\<forall>i<length (levelObstacles s').
          (if i = 0 then 0 else spec_cursor s (levelObstacles s') i)
            < 800 + of_int (currentLevel s) * 100) \<and>
       \<not> (if levelObstacles s' = [] then 0
           else o_x (last (levelObstacles s')) + o_width (last (levelObstacles s')))
            < 800 + of_int (currentLevel s) * 100)"
proof -
  note pl = generateObstacles_placed [OF assms]
  note nth = placed_from_nth [OF pl [THEN conjunct2]]
  note fin = placed_from_end [OF pl [THEN conjunct2]]
  have A: "s' = s\<lparr>levelObstacles := levelObstacles s'\<rparr>"
    using pl by blast
  have B: "o_x (levelObstacles s' ! i) =
         spec_cursor s (levelObstacles s') i +
         spec_gap s (spec_difficulty isInfinite s) (rnd (3 * i)) \<and>
       o_width (levelObstacles s' ! i) =
         spec_width s (spec_difficulty isInfinite s) (rnd (3 * i + 1)) \<and>
       o_height (levelObstacles s' ! i) =
         spec_height s (spec_difficulty isInfinite s) (rnd (3 * i + 2)) \<and>
       o_y (levelObstacles s' ! i) =
         (canvas_height s - groundHeight s) - o_height (levelObstacles s' ! i)"
    if "i < length (levelObstacles s')" for i
    using nth [OF that]
    by (simp add: spec_cursor_def spec_gap_def spec_width_def spec_height_def)
  have C: "(if i = 0 then 0 else spec_cursor s (levelObstacles s') i)
            < 800 + of_int (currentLevel s) * 100"
    if "i < length (levelObstacles s')" and "\<not> isInfinite" for i
    using nth [OF that(1)] that(2)
    by (cases "i = 0") (simp_all add: spec_cursor_def)
  have D: "\<not> (if levelObstacles s' = [] then 0
           else o_x (last (levelObstacles s')) + o_width (last (levelObstacles s')))
            < 800 + of_int (currentLevel s) * 100"
    if "\<not> isInfinite"
    using fin that by simp
  from A B C D show ?thesis by blast
qed

theorem generateObstacles_placement_witness:
  "generateObstacles mixed_draws False level7_game =
     Some (level7_game\<lparr>levelObstacles :=
       [\<lparr>o_x = 956, o_y = 365, o_width = 809 / 10, o_height = 199\<rparr>,
        \<lparr>o_x = 13929 / 10, o_y = 939 / 2, o_width = 809 / 10, o_height = 189 / 2\<rparr>,
        \<lparr>o_x = 9149 / 5, o_y = 939 / 2, o_width = 809 / 10, o_height = 189 / 2\<rparr>]\<rparr>) \<and>
   spec_difficulty False level7_game = 19 / 10 \<and>
   spec_cursor level7_game [] 0 + spec_gap level7_game (19 / 10) (mixed_draws 0) = 956 \<and>
   spec_width level7_game (19 / 10) (mixed_draws 1) = 809 / 10 \<and>
   spec_height level7_game (19 / 10) (mixed_draws 2) = 199 \<and>
   spec_height level7_game (19 / 10) (mixed_draws 5) = 189 / 2 \<and>
   \<not> (9149 / 5 + 809 / 10 < (800 + of_int (currentLevel level7_game) * 100 :: real))"
proof -
  have ev: "generateObstacles mixed_draws False level7_game =
     Some (level7_game\<lparr>levelObstacles :=
       [\<lparr>o_x = 956, o_y = 365, o_width = 809 / 10, o_height = 199\<rparr>,
        \<lparr>o_x = 13929 / 10, o_y = 939 / 2, o_width = 809 / 10, o_height = 189 / 2\<rparr>,
        \<lparr>o_x = 9149 / 5, o_y = 939 / 2, o_width = 809 / 10, o_height = 189 / 2\<rparr>]\<rparr>)"
    by (simp add: generateObstacles_unfold spec_difficulty_def level7_game_def example_game_def
          resizeCanvas_eq initial_game_def initial_player_def mixed_draws_def
          generateLoop_step generateLoop_stop)
  from generateObstacles_placement [OF ev] ev show ?thesis
    by (simp add: spec_difficulty_def spec_cursor_def spec_gap_def spec_width_def
          spec_height_def level7_game_def example_game_def resizeCanvas_eq initial_game_def
          initial_player_def mixed_draws_def)
qed

text \<open>
  C5. For every sequence the generator produces in a state with a player of
  non-negative size, a non-negative score (infinite mode) or a level from 1 on (level
  mode), and whatever the non-negative draws are: each obstacle's x is at least the x
  of the one before, because it is the right edge of the one before plus a gap of at
  least 40, and no width is negative. These conditions hold whenever the script calls
  the generator: the player's size is 0.15 times the canvas height, levels are picked
  from 1 to 50, and the score is set to 0 just before an infinite run is generated.
\<close>

theorem generateObstacles_monotone:
  assumes "generateObstacles rnd isInfinite s = Some s'"
    and "0 \<le> p_width (player s)" and "0 \<le> p_height (player s)"
    and "isInfinite \<longrightarrow> 0 \<le> score s" and "\<not> isInfinite \<longrightarrow> 1 \<le> currentLevel s"
    and "\<forall>k. 0 \<le> rnd k"
  shows "\<forall>i. i + 1 < length (levelObstacles s') \<longrightarrow>
           o_x (levelObstacles s' ! (i + 1)) \<ge> o_x (levelObstacles s' ! i) \<and>
           o_x (levelObstacles s' ! (i + 1)) \<ge>
             o_x (levelObstacles s' ! i) + o_width (levelObstacles s' ! i) + 40 \<and>
           o_width (levelObstacles s' ! i) \<ge> 0"
proof (intro allI impI)
  fix i
  assume i: "i + 1 < length (levelObstacles s')"
  then have i0: "i < length (levelObstacles s')" by simp
  note pl = generateObstacles_placed [OF assms(1)]
  note n1 = placed_from_nth [OF pl [THEN conjunct2] i]
  note n0 = placed_from_nth [OF pl [THEN conjunct2] i0]
  have d: "1 \<le> spec_difficulty isInfinite s"
    using assms(4,5) by (rule spec_difficulty_nonneg)
  have "0 \<le> p_height (player s) * 1.05 * 0.6" using assms(3) by simp
  moreover have "0 \<le> spec_difficulty isInfinite s * 8" using d by simp
  moreover have "0 \<le> rnd (0 + 3 * i + 1) * 18" using assms(6) by simp
  ultimately have "0 \<le> p_height (player s) * 1.05 * 0.6 + spec_difficulty isInfinite s * 8 +
                     rnd (0 + 3 * i + 1) * 18"
    by linarith
  moreover have "0 \<le> p_width (player s) * 2.4" using assms(2) by simp
  ultimately have w: "0 \<le> o_width (levelObstacles s' ! i)"
    using n0 by simp
  have "o_x (levelObstacles s' ! (i + 1)) =
          o_x (levelObstacles s' ! i) + o_width (levelObstacles s' ! i) +
          max (max (p_width (player s) * 1.6) 40)
              (420 - spec_difficulty isInfinite s * 60 + rnd (0 + 3 * (i + 1)) * 100)"
    using n1 by simp
  moreover have "(40::real) \<le> max (max (p_width (player s) * 1.6) 40)
              (420 - spec_difficulty isInfinite s * 60 + rnd (0 + 3 * (i + 1)) * 100)"
    by simp
  ultimately have g: "o_x (levelObstacles s' ! (i + 1)) \<ge>
             o_x (levelObstacles s' ! i) + o_width (levelObstacles s' ! i) + 40"
    by linarith
  from g w show "o_x (levelObstacles s' ! (i + 1)) \<ge> o_x (levelObstacles s' ! i) \<and>
           o_x (levelObstacles s' ! (i + 1)) \<ge>
             o_x (levelObstacles s' ! i) + o_width (levelObstacles s' ! i) + 40 \<and>
           o_width (levelObstacles s' ! i) \<ge> 0"
    by simp
qed

theorem generateObstacles_monotone_witness:
  "generateObstacles half_draws False level7_game =
     Some (level7_game\<lparr>levelObstacles := level7_obstacles\<rparr>) \<and>
   0 \<le> p_width (player level7_game) \<and> 0 \<le> p_height (player level7_game) \<and>
   1 \<le> currentLevel level7_game \<and> (\<forall>k. 0 \<le> half_draws k) \<and>
   length level7_obstacles = 3 \<and>
   o_x (level7_obstacles ! 0) \<le> o_x (level7_obstacles ! 1) \<and>
   o_x (level7_obstacles ! 1) \<le> o_x (level7_obstacles ! 2)"
proof -
  have ev: "generateObstacles half_draws False level7_game =
     Some (level7_game\<lparr>levelObstacles := level7_obstacles\<rparr>)"
    by (simp add: generateObstacles_unfold spec_difficulty_def level7_game_def example_game_def
          resizeCanvas_eq initial_game_def initial_player_def half_draws_def
          level7_obstacles_def generateLoop_step generateLoop_stop)
  have h: "0 \<le> p_width (player level7_game)" "0 \<le> p_height (player level7_game)"
    "False \<longrightarrow> 0 \<le> score level7_game" "\<not> False \<longrightarrow> 1 \<le> currentLevel level7_game"
    "\<forall>k. 0 \<le> half_draws k"
    by (simp_all add: level7_game_def example_game_def resizeCanvas_eq initial_game_def
          initial_player_def half_draws_def)
  have len: "length level7_obstacles = 3"
    by (simp add: level7_obstacles_def)
  note mono = generateObstacles_monotone [OF ev h, rule_format]
  have "o_x (level7_obstacles ! 0) \<le> o_x (level7_obstacles ! 1)"
    using mono [of 0] len by (simp add: level7_obstacles_def)
  moreover have "o_x (level7_obstacles ! 1) \<le> o_x (level7_obstacles ! 2)"
    using mono [of 1] len by (simp add: level7_obstacles_def)
  ultimately show ?thesis
    using ev h len by simp
qed


section \<open>Clicks\<close>

text \<open>The rectangles \<open>updateMenuButtonPositions\<close> stores.\<close>

lemma menuButtons_layout:
  "menuButtons (updateMenuButtonPositions s) k_levels =
     Some \<lparr>b_x = canvas_width s / 2 - 150, b_y = canvas_height s / 2 + 30, b_width = 140, b_height = 40\<rparr>"
  "menuButtons (updateMenuButtonPositions s) k_infinite =
     Some \<lparr>b_x = canvas_width s / 2 + 10, b_y = canvas_height s / 2 + 30, b_width = 140, b_height = 40\<rparr>"
  "menuButtons (updateMenuButtonPositions s) k_back =
     Some \<lparr>b_x = 20, b_y = 20, b_width = 100, b_height = 30\<rparr>"
  "menuButtons (updateMenuButtonPositions s) k_gameOverMenu =
     Some \<lparr>b_x = canvas_width s / 2 - 210, b_y = canvas_height s / 2 + 20, b_width = 200, b_height = 50\<rparr>"
  "menuButtons (updateMenuButtonPositions s) k_gameOverRetry =
     Some \<lparr>b_x = canvas_width s / 2 + 10, b_y = canvas_height s / 2 + 20, b_width = 200, b_height = 50\<rparr>"
  "menuButtons (updateMenuButtonPositions s) k_levelCompleteMenu =
     Some \<lparr>b_x = canvas_width s / 2 - 210, b_y = canvas_height s / 2 + 20, b_width = 200, b_height = 50\<rparr>"
  "menuButtons (updateMenuButtonPositions s) k_levelCompleteLevels =
     Some \<lparr>b_x = canvas_width s / 2 + 10, b_y = canvas_height s / 2 + 20, b_width = 200, b_height = 50\<rparr>"
  "menuButtons (updateMenuButtonPositions s) (k_level j) =
     (if 1 \<le> j \<and> j \<le> 50
      then Some \<lparr>b_x = canvas_width s * 0.1 + of_int ((j - 1) mod 10) * 65,
                 b_y = canvas_height s * 0.25 + of_int ((j - 1) div 10) * 45,
                 b_width = 50, b_height = 30\<rparr>
      else menuButtons s (k_level j))"
  by (simp_all add: updateMenuButtonPositions_def Let_def levelButtonsLoop_other
        levelButtonsLoop_level)

text \<open>The generator leaves everything but the obstacle list alone.\<close>

lemma generateObstacles_frame:
  assumes "generateObstacles rnd isInfinite s = Some s'"
  shows "s' = s\<lparr>levelObstacles := levelObstacles s'\<rparr>"
  using generateObstacles_placed [OF assms] by blast

text \<open>The level-select loop: a button that misses, the first button that holds the click, the end.\<close>

lemma levelSelectLoop_skip:
  "i \<le> 50 \<Longrightarrow> \<not> isButtonClicked (menuButtons s (k_level i)) x y \<Longrightarrow>
   levelSelectLoop rnd x y i s = levelSelectLoop rnd x y (i + 1) s"
  by (subst levelSelectLoop.simps) simp

lemma levelSelectLoop_pick:
  "i \<le> 50 \<Longrightarrow> isButtonClicked (menuButtons s (k_level i)) x y \<Longrightarrow>
   levelSelectLoop rnd x y i s =
     map_option (\<lambda>s3. s3\<lparr>gameState := LEVEL\<rparr>)
       (generateObstacles rnd False (resetPlayerAndObstacles (s\<lparr>currentLevel := i\<rparr>)))"
  by (subst levelSelectLoop.simps) (simp add: Let_def split: option.splits)

lemma levelSelectLoop_end:
  "\<not> i \<le> 50 \<Longrightarrow> levelSelectLoop rnd x y i s = Some s"
  by (subst levelSelectLoop.simps) simp

text \<open>
  A level-select click either changes nothing or starts the level of the first button
  that holds the click.
\<close>

lemma levelSelectLoop_result:
  assumes "levelSelectLoop rnd x y i s = Some s'"
  shows "s' = s \<or>
         (\<exists>j. i \<le> j \<and> j \<le> 50 \<and> isButtonClicked (menuButtons s (k_level j)) x y \<and>
              (\<forall>k. i \<le> k \<and> k < j \<longrightarrow> \<not> isButtonClicked (menuButtons s (k_level k)) x y) \<and>
              generateObstacles rnd False (resetPlayerAndObstacles (s\<lparr>currentLevel := j\<rparr>))
                = Some (s'\<lparr>gameState := gameState s\<rparr>) \<and>
              gameState s' = LEVEL \<and> currentLevel s' = j)"
  using assms
proof (induction rnd x y i s rule: levelSelectLoop.induct)
  case (1 rnd x y i s)
  show ?case
  proof (cases "i \<le> 50")
    case False
    then show ?thesis using "1.prems" by (simp add: levelSelectLoop_end)
  next
    case True
    show ?thesis
    proof (cases "isButtonClicked (menuButtons s (k_level i)) x y")
      case c: True
      from "1.prems" obtain g where
        g: "generateObstacles rnd False (resetPlayerAndObstacles (s\<lparr>currentLevel := i\<rparr>)) = Some g"
        and s': "s' = g\<lparr>gameState := LEVEL\<rparr>"
        by (auto simp add: levelSelectLoop_pick [OF True c])
      have fr: "g = (resetPlayerAndObstacles (s\<lparr>currentLevel := i\<rparr>))\<lparr>levelObstacles := levelObstacles g\<rparr>"
        using generateObstacles_frame [OF g] .
      have gs: "gameState g = gameState s" and cl: "currentLevel g = i"
        by (subst fr, simp add: resetPlayerAndObstacles_eq)+
      have e: "g = s'\<lparr>gameState := gameState s\<rparr>"
        using gs by (simp add: s')
      have vac: "\<forall>k. i \<le> k \<and> k < i \<longrightarrow> \<not> isButtonClicked (menuButtons s (k_level k)) x y"
        by auto
      have st: "gameState s' = LEVEL" by (simp add: s')
      have lv: "currentLevel s' = i" using cl by (simp add: s')
      have "i \<le> i \<and> i \<le> 50 \<and> isButtonClicked (menuButtons s (k_level i)) x y \<and>
              (\<forall>k. i \<le> k \<and> k < i \<longrightarrow> \<not> isButtonClicked (menuButtons s (k_level k)) x y) \<and>
              generateObstacles rnd False (resetPlayerAndObstacles (s\<lparr>currentLevel := i\<rparr>))
                = Some (s'\<lparr>gameState := gameState s\<rparr>) \<and>
              gameState s' = LEVEL \<and> currentLevel s' = i"
        using True c g vac st lv unfolding e [symmetric] by blast
      then show ?thesis by blast
    next
      case c: False
      have "levelSelectLoop rnd x y (i + 1) s = Some s'"
        using "1.prems" by (simp add: levelSelectLoop_skip [OF True c])
      from "1.IH" [OF True c this] show ?thesis
      proof
        assume "s' = s" then show ?thesis by simp
      next
        assume "\<exists>j. i + 1 \<le> j \<and> j \<le> 50 \<and> isButtonClicked (menuButtons s (k_level j)) x y \<and>
              (\<forall>k. i + 1 \<le> k \<and> k < j \<longrightarrow> \<not> isButtonClicked (menuButtons s (k_level k)) x y) \<and>
              generateObstacles rnd False (resetPlayerAndObstacles (s\<lparr>currentLevel := j\<rparr>))
                = Some (s'\<lparr>gameState := gameState s\<rparr>) \<and>
              gameState s' = LEVEL \<and> currentLevel s' = j"
        then obtain j where j: "i + 1 \<le> j" "j \<le> 50" "isButtonClicked (menuButtons s (k_level j)) x y"
          "\<forall>k. i + 1 \<le> k \<and> k < j \<longrightarrow> \<not> isButtonClicked (menuButtons s (k_level k)) x y"
          "generateObstacles rnd False (resetPlayerAndObstacles (s\<lparr>currentLevel := j\<rparr>))
                = Some (s'\<lparr>gameState := gameState s\<rparr>)"
          "gameState s' = LEVEL" "currentLevel s' = j"
          by blast
        have "\<forall>k. i \<le> k \<and> k < j \<longrightarrow> \<not> isButtonClicked (menuButtons s (k_level k)) x y"
        proof (intro allI impI)
          fix k assume k: "i \<le> k \<and> k < j"
          show "\<not> isButtonClicked (menuButtons s (k_level k)) x y"
          proof (cases "k = i")
            case True then show ?thesis using c by simp
          next
            case False
            then have "i + 1 \<le> k \<and> k < j" using k by simp
            then show ?thesis using j(4) by blast
          qed
        qed
        moreover have "i \<le> j" using j(1) by simp
        ultimately show ?thesis using j by blast
      qed
    qed
  qed
qed

text \<open>
  C6. In GAME_OVER, a click on the Retry button (and not on Return to Menu) returns,
  for a player of non-negative size, non-negative draws and, after a level run, a
  level from 1 on. It resets the player and keeps currentLevel. With previousGameState
  INFINITE it sets score to 0, generates infinite obstacles from that state (difficulty
  1) and moves to INFINITE. Otherwise it generates level obstacles for the unchanged
  currentLevel (difficulty \<open>1 + (currentLevel-1)*0.15\<close>, target length
  \<open>800 + currentLevel*100\<close>), keeps the score and moves to LEVEL.
\<close>

theorem retry_from_game_over:
  assumes "gameState s = GAME_OVER"
    and "\<not> isButtonClicked (menuButtons s k_gameOverMenu) x y"
    and "isButtonClicked (menuButtons s k_gameOverRetry) x y"
    and "0 \<le> p_width (player s)" and "0 \<le> p_height (player s)"
    and "previousGameState s \<noteq> INFINITE \<longrightarrow> 1 \<le> currentLevel s"
    and "\<forall>k. 0 \<le> rnd k"
  shows "\<exists>s'. handleMouseDown rnd x y s = Some s' \<and>
     currentLevel s' = currentLevel s \<and>
     player s' = (player s)\<lparr>p_x := canvas_width s * 0.05,
                    p_y := canvas_height s - p_height (player s) - groundHeight s,
                    velocityY := 0, isGrounded := True\<rparr> \<and>
     (if previousGameState s = INFINITE
      then gameState s' = INFINITE \<and> score s' = 0 \<and>
           generateObstacles rnd True ((resetPlayerAndObstacles s)\<lparr>score := 0\<rparr>)
             = Some (s'\<lparr>gameState := GAME_OVER\<rparr>) \<and>
           (\<forall>i<length (levelObstacles s').
              o_x (levelObstacles s' ! i) =
                spec_cursor s (levelObstacles s') i + spec_gap s 1 (rnd (3 * i)))
      else gameState s' = LEVEL \<and> score s' = score s \<and>
           generateObstacles rnd False (resetPlayerAndObstacles s)
             = Some (s'\<lparr>gameState := GAME_OVER\<rparr>) \<and>
           (\<forall>i<length (levelObstacles s').
              o_x (levelObstacles s' ! i) =
                spec_cursor s (levelObstacles s') i +
                spec_gap s (1 + (of_int (currentLevel s) - 1) * 0.15) (rnd (3 * i))) \<and>
           levelObstacles s' \<noteq> [] \<and>
           o_x (last (levelObstacles s')) + o_width (last (levelObstacles s'))
             \<ge> 800 + of_int (currentLevel s) * 100)"
proof (cases "previousGameState s = INFINITE")
  case True
  let ?s2 = "(resetPlayerAndObstacles s)\<lparr>score := 0\<rparr>"
  have "\<exists>g. generateObstacles rnd True ?s2 = Some g"
    using assms(4,5,7) by (intro generateObstacles_terminates) (simp_all add: resetPlayerAndObstacles_eq)
  then obtain g where g: "generateObstacles rnd True ?s2 = Some g" by blast
  note pl = generateObstacles_placed [OF g]
  have fr: "g = ?s2\<lparr>levelObstacles := levelObstacles g\<rparr>" using pl by blast
  have d: "spec_difficulty True ?s2 = 1" by (simp add: spec_difficulty_def)
  have h: "handleMouseDown rnd x y s = Some (g\<lparr>gameState := INFINITE\<rparr>)"
    using assms(1,2,3) True g
    by (simp add: handleMouseDown_def Let_def resetPlayerAndObstacles_eq)
  have gs: "gameState g = GAME_OVER" "currentLevel g = currentLevel s" "score g = 0"
    "player g = (player s)\<lparr>p_x := canvas_width s * 0.05,
                    p_y := canvas_height s - p_height (player s) - groundHeight s,
                    velocityY := 0, isGrounded := True\<rparr>"
    using assms(1) by (subst fr, simp add: resetPlayerAndObstacles_eq)+
  have bk: "g = (g\<lparr>gameState := INFINITE\<rparr>)\<lparr>gameState := GAME_OVER\<rparr>"
    using gs(1) by simp
  have xs: "o_x (levelObstacles g ! i) = spec_cursor s (levelObstacles g) i + spec_gap s 1 (rnd (3 * i))"
    if "i < length (levelObstacles g)" for i
    using placed_from_nth [OF pl [THEN conjunct2] that] unfolding d
    by (simp add: spec_cursor_def spec_gap_def resetPlayerAndObstacles_eq)
  show ?thesis
    using True h gs g bk xs by (intro exI [of _ "g\<lparr>gameState := INFINITE\<rparr>"]) simp
next
  case False
  let ?s1 = "resetPlayerAndObstacles s"
  have lvl: "1 \<le> currentLevel s" using assms(6) False by simp
  have "\<exists>g. generateObstacles rnd False ?s1 = Some g"
    using assms(4,5,7) lvl by (intro generateObstacles_terminates) (simp_all add: resetPlayerAndObstacles_eq)
  then obtain g where g: "generateObstacles rnd False ?s1 = Some g" by blast
  note pl = generateObstacles_placed [OF g]
  have fr: "g = ?s1\<lparr>levelObstacles := levelObstacles g\<rparr>" using pl by blast
  have d: "spec_difficulty False ?s1 = 1 + (of_int (currentLevel s) - 1) * 0.15"
    by (simp add: spec_difficulty_def resetPlayerAndObstacles_eq)
  have h: "handleMouseDown rnd x y s = Some (g\<lparr>gameState := LEVEL\<rparr>)"
    using assms(1,2,3) False g
    by (simp add: handleMouseDown_def Let_def resetPlayerAndObstacles_eq)
  have gs: "gameState g = GAME_OVER" "currentLevel g = currentLevel s" "score g = score s"
    "player g = (player s)\<lparr>p_x := canvas_width s * 0.05,
                    p_y := canvas_height s - p_height (player s) - groundHeight s,
                    velocityY := 0, isGrounded := True\<rparr>"
    using assms(1) by (subst fr, simp add: resetPlayerAndObstacles_eq)+
  have bk: "g = (g\<lparr>gameState := LEVEL\<rparr>)\<lparr>gameState := GAME_OVER\<rparr>"
    using gs(1) by simp
  have xs: "o_x (levelObstacles g ! i) = spec_cursor s (levelObstacles g) i +
                spec_gap s (1 + (of_int (currentLevel s) - 1) * 0.15) (rnd (3 * i))"
    if "i < length (levelObstacles g)" for i
    using placed_from_nth [OF pl [THEN conjunct2] that] unfolding d
    by (simp add: spec_cursor_def spec_gap_def resetPlayerAndObstacles_eq)
  have tgt: "(0::real) < 800 + of_int (currentLevel s) * 100"
  proof -
    have "(1::real) \<le> of_int (currentLevel s)" using lvl by simp
    then show ?thesis by simp
  qed
  have fin: "\<not> (if levelObstacles g = [] then 0
           else o_x (last (levelObstacles g)) + o_width (last (levelObstacles g)))
            < 800 + of_int (currentLevel s) * 100"
    using placed_from_end [OF pl [THEN conjunct2]] by (simp add: resetPlayerAndObstacles_eq)
  have ne: "levelObstacles g \<noteq> []" using fin tgt by auto
  have edge: "o_x (last (levelObstacles g)) + o_width (last (levelObstacles g))
             \<ge> 800 + of_int (currentLevel s) * 100"
    using fin ne by simp
  show ?thesis
    using False h gs g bk xs ne edge by (intro exI [of _ "g\<lparr>gameState := LEVEL\<rparr>"]) simp
qed

lemma game_over_game_eq:
  "game_over_game =
     example_game\<lparr>gameState := GAME_OVER, previousGameState := LEVEL, currentLevel := 7,
       lastTime := 1000,
       levelObstacles := [low_obstacle (-100), low_obstacle 132, low_obstacle 600]\<rparr>"
  by (simp add: game_over_game_def crash_game_def resetGame_eq example_game_def resizeCanvas_eq
        initial_game_def initial_player_def)

theorem retry_from_game_over_witness:
  "gameState game_over_game = GAME_OVER \<and>
   previousGameState game_over_game = LEVEL \<and>
   currentLevel game_over_game = 7 \<and>
   \<not> isButtonClicked (menuButtons game_over_game k_gameOverMenu) 600 340 \<and>
   isButtonClicked (menuButtons game_over_game k_gameOverRetry) 600 340 \<and>
   handleMouseDown half_draws 600 340 game_over_game =
     Some (example_game\<lparr>gameState := LEVEL, previousGameState := LEVEL, currentLevel := 7,
       lastTime := 1000,
       levelObstacles :=
         [\<lparr>o_x = 956, o_y = 939 / 2, o_width = 809 / 10, o_height = 189 / 2\<rparr>,
          \<lparr>o_x = 13929 / 10, o_y = 939 / 2, o_width = 809 / 10, o_height = 189 / 2\<rparr>,
          \<lparr>o_x = 9149 / 5, o_y = 939 / 2, o_width = 809 / 10, o_height = 189 / 2\<rparr>]\<rparr>)"
proof -
  have h: "gameState game_over_game = GAME_OVER"
    "\<not> isButtonClicked (menuButtons game_over_game k_gameOverMenu) 600 340"
    "isButtonClicked (menuButtons game_over_game k_gameOverRetry) 600 340"
    "0 \<le> p_width (player game_over_game)" "0 \<le> p_height (player game_over_game)"
    "previousGameState game_over_game \<noteq> INFINITE \<longrightarrow> 1 \<le> currentLevel game_over_game"
    "\<forall>k. 0 \<le> half_draws k"
    by (simp_all add: game_over_game_eq example_game_def resizeCanvas_eq initial_game_def
          initial_player_def menuButtons_layout isButtonClicked_def half_draws_def)
  have p: "previousGameState game_over_game = LEVEL" "currentLevel game_over_game = 7"
    by (simp_all add: game_over_game_eq)
  have ev: "handleMouseDown half_draws 600 340 game_over_game =
     Some (example_game\<lparr>gameState := LEVEL, previousGameState := LEVEL, currentLevel := 7,
       lastTime := 1000,
       levelObstacles :=
         [\<lparr>o_x = 956, o_y = 939 / 2, o_width = 809 / 10, o_height = 189 / 2\<rparr>,
          \<lparr>o_x = 13929 / 10, o_y = 939 / 2, o_width = 809 / 10, o_height = 189 / 2\<rparr>,
          \<lparr>o_x = 9149 / 5, o_y = 939 / 2, o_width = 809 / 10, o_height = 189 / 2\<rparr>]\<rparr>)"
    by (simp add: handleMouseDown_def Let_def game_over_game_eq example_game_def resizeCanvas_eq
          initial_game_def initial_player_def menuButtons_layout isButtonClicked_def
          resetPlayerAndObstacles_eq generateObstacles_unfold spec_difficulty_def
          half_draws_def generateLoop_step generateLoop_stop)
  from retry_from_game_over [OF h] h p ev show ?thesis
    by blast
qed

section \<open>Level index and score across the operations\<close>

text \<open>\<open>updatePlayer\<close> touches the player only.\<close>

lemma updatePlayer_other:
  "gameState (updatePlayer s) = gameState s"
  "currentLevel (updatePlayer s) = currentLevel s"
  "score (updatePlayer s) = score s"
  "levelObstacles (updatePlayer s) = levelObstacles s"
  "lastTime (updatePlayer s) = lastTime s"
  by (simp_all add: updatePlayer_def Let_def)

text \<open>The three ways a call of \<open>updateObstacles\<close> can end, and what it does to the score.\<close>

lemma updateObstacles_outcome:
  "(gameState (updateObstacles d s) = GAME_OVER \<and>
      currentLevel (updateObstacles d s) = currentLevel s) \<or>
   (gameState s = LEVEL \<and> gameState (updateObstacles d s) = LEVEL_COMPLETE \<and>
      currentLevel (updateObstacles d s) = currentLevel s + 1) \<or>
   (gameState (updateObstacles d s) = gameState s \<and>
      currentLevel (updateObstacles d s) = currentLevel s)"
proof (cases "\<exists>j<length (levelObstacles s).
             spec_collides s (spec_scrolled (spec_scrollSpeed s * d) (levelObstacles s ! j))")
  case True
  from updateObstacles_any_hit [OF True] show ?thesis by simp
next
  case False
  then have a: "\<forall>j<length (levelObstacles s).
             \<not> spec_collides s (spec_scrolled (spec_scrollSpeed s * d) (levelObstacles s ! j))"
    by blast
  show ?thesis
    by (simp add: updateObstacles_no_hit [OF a])
qed

lemma updateObstacles_score: "score (updateObstacles d s) = score s"
proof (cases "\<exists>j<length (levelObstacles s).
             spec_collides s (spec_scrolled (spec_scrollSpeed s * d) (levelObstacles s ! j))")
  case True
  from updateObstacles_any_hit [OF True] show ?thesis by simp
next
  case False
  then have a: "\<forall>j<length (levelObstacles s).
             \<not> spec_collides s (spec_scrolled (spec_scrollSpeed s * d) (levelObstacles s ! j))"
    by blast
  show ?thesis
    by (simp add: updateObstacles_no_hit [OF a])
qed

lemma updateGame_outcome:
  "(gameState (updateGame d s) = GAME_OVER \<and> currentLevel (updateGame d s) = currentLevel s) \<or>
   (gameState s = LEVEL \<and> gameState (updateGame d s) = LEVEL_COMPLETE \<and>
      currentLevel (updateGame d s) = currentLevel s + 1) \<or>
   (gameState (updateGame d s) = gameState s \<and> currentLevel (updateGame d s) = currentLevel s)"
  using updateObstacles_outcome [of d "updatePlayer s"]
  by (simp add: updateGame_def updatePlayer_other)

lemma updateGame_score: "score (updateGame d s) = score s"
  by (simp add: updateGame_def updateObstacles_score updatePlayer_other)

text \<open>A frame changes the level index only by completing a level.\<close>

lemma gameLoop_level:
  "currentLevel (gameLoop c t s) = currentLevel s \<or>
   (gameState s = LEVEL \<and> gameState (gameLoop c t s) = LEVEL_COMPLETE \<and>
    currentLevel (gameLoop c t s) = currentLevel s + 1)"
proof (cases "c \<and> (gameState s = LEVEL \<or> gameState s = INFINITE)")
  case False
  then show ?thesis
    by (cases "gameState s") (simp_all add: gameLoop_def Let_def)
next
  case True
  let ?d = "(t - lastTime s) / 1000"
  let ?s1 = "s\<lparr>lastTime := t\<rparr>"
  let ?s2 = "updateGame ?d ?s1"
  have r: "gameLoop c t s = (if gameState ?s2 = LEVEL then ?s2 else updateScore ?d ?s2)"
    using True by (auto simp add: gameLoop_def Let_def)
  have "currentLevel (gameLoop c t s) = currentLevel ?s2"
    and "gameState (gameLoop c t s) = gameState ?s2"
    unfolding r by (simp_all add: updateScore_def)
  then show ?thesis
    using updateGame_outcome [of ?d ?s1] by auto
qed

text \<open>A click changes the level index only by picking a level on the level-select screen.\<close>

lemma handleMouseDown_level:
  assumes "handleMouseDown rnd x y s = Some s'"
  shows "currentLevel s' = currentLevel s \<or>
         (gameState s = LEVEL_SELECT \<and> gameState s' = LEVEL \<and>
          1 \<le> currentLevel s' \<and> currentLevel s' \<le> 50 \<and>
          isButtonClicked (menuButtons s (k_level (currentLevel s'))) x y)"
proof (cases "gameState s")
  case MENU
  show ?thesis
  proof (cases "isButtonClicked (menuButtons s k_levels) x y")
    case True
    then show ?thesis using assms MENU by (auto simp add: handleMouseDown_def)
  next
    case n: False
    show ?thesis
    proof (cases "isButtonClicked (menuButtons s k_infinite) x y")
      case False
      then show ?thesis using assms MENU n by (auto simp add: handleMouseDown_def)
    next
      case True
      from assms MENU n True obtain g where
        g: "generateObstacles rnd True (resetPlayerAndObstacles (s\<lparr>score := 0\<rparr>)) = Some g"
        and s': "s' = g\<lparr>gameState := INFINITE\<rparr>"
        by (auto simp add: handleMouseDown_def Let_def split: option.splits)
      have "currentLevel g = currentLevel s"
        by (subst generateObstacles_frame [OF g]) (simp add: resetPlayerAndObstacles_eq)
      then show ?thesis by (simp add: s')
    qed
  qed
next
  case LEVEL_SELECT
  show ?thesis
  proof (cases "isButtonClicked (menuButtons s k_back) x y")
    case True
    then show ?thesis using assms LEVEL_SELECT by (auto simp add: handleMouseDown_def)
  next
    case False
    then have "levelSelectLoop rnd x y 1 s = Some s'"
      using assms LEVEL_SELECT by (simp add: handleMouseDown_def)
    from levelSelectLoop_result [OF this] LEVEL_SELECT show ?thesis
      by auto
  qed
next
  case LEVEL
  then show ?thesis using assms by (auto simp add: handleMouseDown_def)
next
  case INFINITE
  then show ?thesis using assms by (auto simp add: handleMouseDown_def)
next
  case GAME_OVER
  show ?thesis
  proof (cases "isButtonClicked (menuButtons s k_gameOverMenu) x y")
    case True
    then show ?thesis using assms GAME_OVER
      by (auto simp add: handleMouseDown_def Let_def resetPlayerAndObstacles_eq)
  next
    case n: False
    show ?thesis
    proof (cases "isButtonClicked (menuButtons s k_gameOverRetry) x y")
      case False
      then show ?thesis using assms GAME_OVER n by (auto simp add: handleMouseDown_def)
    next
      case True
      from assms GAME_OVER n True obtain g s0 b where
        g: "generateObstacles rnd b s0 = Some g"
        and s0: "currentLevel s0 = currentLevel s"
        and s': "currentLevel s' = currentLevel g"
        by (auto simp add: handleMouseDown_def Let_def resetPlayerAndObstacles_eq
              split: option.splits if_splits)
      have "currentLevel g = currentLevel s0"
        by (subst generateObstacles_frame [OF g]) simp
      then show ?thesis using s0 s' by simp
    qed
  qed
next
  case LEVEL_COMPLETE
  then show ?thesis using assms by (auto simp add: handleMouseDown_def Let_def split: if_splits)
qed

text \<open>
  Two frames worked out on the example states, 20 ms after the frame before: the crash
  of \<open>crash_game\<close> and the completion of \<open>cleared_game\<close>. The player of the example
  states stands on the ground, so \<open>updatePlayer\<close> leaves it alone.
\<close>

lemma example_player_rests:
  "updatePlayer (example_game\<lparr>gameState := g, currentLevel := l, lastTime := t, levelObstacles := obs\<rparr>)
     = example_game\<lparr>gameState := g, currentLevel := l, lastTime := t, levelObstacles := obs\<rparr>"
  by (simp add: updatePlayer_def Let_def example_game_def resizeCanvas_eq initial_game_def
        initial_player_def)

lemma crash_game_frame:
  "gameLoop True 1020 crash_game =
     crash_game\<lparr>lastTime := 1020,
       levelObstacles := [low_obstacle (-105), low_obstacle 127, low_obstacle 600],
       previousGameState := LEVEL,
       player := (player crash_game)\<lparr>velocityY := 0, isGrounded := True\<rparr>,
       gameState := GAME_OVER,
       score := 5\<rparr>"
proof -
  let ?s1 = "example_game\<lparr>gameState := LEVEL, currentLevel := 7, lastTime := 1020,
       levelObstacles := [low_obstacle (-100), low_obstacle 132, low_obstacle 600]\<rparr>"
  have s1: "crash_game\<lparr>lastTime := 1020\<rparr> = ?s1"
    by (simp add: crash_game_def)
  have hit: "(1::nat) < length (levelObstacles ?s1)"
    "spec_collides ?s1 (spec_scrolled (spec_scrollSpeed ?s1 * (1 / 50)) (levelObstacles ?s1 ! 1))"
    "\<forall>j<1. \<not> spec_collides ?s1 (spec_scrolled (spec_scrollSpeed ?s1 * (1 / 50)) (levelObstacles ?s1 ! j))"
    by (simp_all add: example_game_def resizeCanvas_eq initial_game_def
        initial_player_def spec_collides_def aabb_def spec_scrolled_def spec_scrollSpeed_def
        low_obstacle_def)
  have u: "updateGame (1 / 50) ?s1 =
     ?s1\<lparr>levelObstacles := [low_obstacle (-105), low_obstacle 127, low_obstacle 600],
       previousGameState := LEVEL,
       player := (player ?s1)\<lparr>velocityY := 0, isGrounded := True\<rparr>,
       gameState := GAME_OVER\<rparr>"
    unfolding updateGame_def example_player_rests updateObstacles_hit [OF hit]
    by (simp add: spec_scrolled_def spec_scrollSpeed_def low_obstacle_def)
  have d: "(1020 - lastTime crash_game) / 1000 = 1 / 50"
    by (simp add: crash_game_def)
  have g: "gameState crash_game = LEVEL" by (simp add: crash_game_def)
  have "gameLoop True 1020 crash_game =
     (let s2 = updateGame (1 / 50) (crash_game\<lparr>lastTime := 1020\<rparr>)
      in if gameState s2 = LEVEL then s2 else updateScore (1 / 50) s2)"
    using g by (simp add: gameLoop_def d Let_def)
  also have "\<dots> = crash_game\<lparr>lastTime := 1020,
       levelObstacles := [low_obstacle (-105), low_obstacle 127, low_obstacle 600],
       previousGameState := LEVEL,
       player := (player crash_game)\<lparr>velocityY := 0, isGrounded := True\<rparr>,
       gameState := GAME_OVER,
       score := 5\<rparr>"
    unfolding s1 u
    by (simp add: Let_def updateScore_def crash_game_def example_game_def resizeCanvas_eq
          initial_game_def initial_player_def)
  finally show ?thesis .
qed

lemma cleared_game_frame:
  "gameLoop True 1020 cleared_game =
     cleared_game\<lparr>lastTime := 1020,
       gameState := LEVEL_COMPLETE,
       player := (player cleared_game)\<lparr>p_x := 50, p_y := 474, velocityY := 0, isGrounded := True\<rparr>,
       levelObstacles := [],
       currentLevel := 8,
       score := 5\<rparr>"
proof -
  let ?s1 = "example_game\<lparr>gameState := LEVEL, currentLevel := 7, lastTime := 1020,
       levelObstacles := [low_obstacle (-200), low_obstacle (-58)]\<rparr>"
  have s1: "cleared_game\<lparr>lastTime := 1020\<rparr> = ?s1"
    by (simp add: cleared_game_def)
  have nohit: "\<forall>j<length (levelObstacles ?s1).
      \<not> spec_collides ?s1 (spec_scrolled (spec_scrollSpeed ?s1 * (1 / 50)) (levelObstacles ?s1 ! j))"
    by (simp add: example_game_def resizeCanvas_eq initial_game_def
        initial_player_def spec_collides_def aabb_def spec_scrolled_def spec_scrollSpeed_def
        low_obstacle_def All_less_Suc numeral_2_eq_2)
  have u: "updateGame (1 / 50) ?s1 =
     ?s1\<lparr>gameState := LEVEL_COMPLETE,
       player := (player ?s1)\<lparr>p_x := 50, p_y := 474, velocityY := 0, isGrounded := True\<rparr>,
       levelObstacles := [],
       currentLevel := 8\<rparr>"
    unfolding updateGame_def example_player_rests updateObstacles_no_hit [OF nohit]
    by (simp add: spec_scrollSpeed_def low_obstacle_def example_game_def resizeCanvas_eq
          initial_game_def initial_player_def)
  have d: "(1020 - lastTime cleared_game) / 1000 = 1 / 50"
    by (simp add: cleared_game_def)
  have g: "gameState cleared_game = LEVEL" by (simp add: cleared_game_def)
  have "gameLoop True 1020 cleared_game =
     (let s2 = updateGame (1 / 50) (cleared_game\<lparr>lastTime := 1020\<rparr>)
      in if gameState s2 = LEVEL then s2 else updateScore (1 / 50) s2)"
    using g by (simp add: gameLoop_def d Let_def)
  also have "\<dots> = cleared_game\<lparr>lastTime := 1020,
       gameState := LEVEL_COMPLETE,
       player := (player cleared_game)\<lparr>p_x := 50, p_y := 474, velocityY := 0, isGrounded := True\<rparr>,
       levelObstacles := [],
       currentLevel := 8,
       score := 5\<rparr>"
    unfolding s1 u
    by (simp add: Let_def updateScore_def cleared_game_def example_game_def resizeCanvas_eq
          initial_game_def initial_player_def)
  finally show ?thesis .
qed

section \<open>Score accrual\<close>

text \<open>A frame with the image loaded stores its timestamp.\<close>

lemma gameLoop_lastTime: "lastTime (gameLoop True t s) = t"
proof -
  have a: "lastTime (updateObstacles d s) = lastTime s" for d s
  proof (cases "\<exists>j<length (levelObstacles s).
             spec_collides s (spec_scrolled (spec_scrollSpeed s * d) (levelObstacles s ! j))")
    case True
    then obtain k where "k < length (levelObstacles s)"
      and "spec_collides s (spec_scrolled (spec_scrollSpeed s * d) (levelObstacles s ! k))"
      and "\<forall>j<k. \<not> spec_collides s (spec_scrolled (spec_scrollSpeed s * d) (levelObstacles s ! j))"
      using first_hit [OF True] by blast
    then show ?thesis by (simp add: updateObstacles_hit)
  next
    case False
    then have n: "\<forall>j<length (levelObstacles s).
             \<not> spec_collides s (spec_scrolled (spec_scrollSpeed s * d) (levelObstacles s ! j))"
      by blast
    show ?thesis by (simp add: updateObstacles_no_hit [OF n])
  qed
  have b: "lastTime (updateGame d s) = lastTime s" for d s
    by (simp add: updateGame_def a updatePlayer_other)
  show ?thesis
    by (cases "gameState s") (simp_all add: gameLoop_def Let_def b updateScore_def)
qed

text \<open>
  What a frame does to the score: it adds \<open>250 * delta\<close> when it starts in INFINITE,
  and also when it starts in LEVEL and leaves LEVEL (by a crash or by completing the
  level); every other frame keeps the score.
\<close>

lemma gameLoop_score:
  "score (gameLoop c t s) =
     (if c \<and> (gameState s = INFINITE \<or> gameState s = LEVEL) \<and> gameState (gameLoop c t s) \<noteq> LEVEL
      then score s + 250 * ((t - lastTime s) / 1000) else score s)"
proof (cases "c \<and> (gameState s = LEVEL \<or> gameState s = INFINITE)")
  case False
  then show ?thesis
    by (cases "gameState s") (simp_all add: gameLoop_def Let_def)
next
  case True
  let ?d = "(t - lastTime s) / 1000"
  let ?s2 = "updateGame ?d (s\<lparr>lastTime := t\<rparr>)"
  have r: "gameLoop c t s = (if gameState ?s2 = LEVEL then ?s2 else updateScore ?d ?s2)"
    using True by (auto simp add: gameLoop_def Let_def)
  have g: "gameState (gameLoop c t s) = gameState ?s2"
    unfolding r by (simp add: updateScore_def)
  have sc: "score ?s2 = score s" by (simp add: updateGame_score)
  show ?thesis
    unfolding g using True unfolding r by (auto simp add: updateScore_def sc)
qed

lemma gameLoop_infinite_stays:
  assumes "gameState s = INFINITE"
  shows "gameState (gameLoop c t s) \<noteq> LEVEL"
proof (cases c)
  case False
  then show ?thesis using assms by (simp add: gameLoop_def)
next
  case True
  let ?d = "(t - lastTime s) / 1000"
  let ?s2 = "updateGame ?d (s\<lparr>lastTime := t\<rparr>)"
  have r: "gameLoop c t s = (if gameState ?s2 = LEVEL then ?s2 else updateScore ?d ?s2)"
    using True assms by (auto simp add: gameLoop_def Let_def)
  have "gameState ?s2 \<noteq> LEVEL"
    using updateGame_outcome [of ?d "s\<lparr>lastTime := t\<rparr>"] assms by auto
  then show ?thesis unfolding r by (simp add: updateScore_def)
qed

text \<open>
  A run of frames each of which starts in INFINITE adds 250 per second of the time
  between the timestamp before the run and the last timestamp: 500 over 2.0 seconds.
\<close>

lemma infinite_run_score:
  assumes "\<forall>k<length ts. gameState (run_frames (take k ts) s) = INFINITE"
  shows "score (run_frames ts s) =
           score s + 250 * ((lastTime (run_frames ts s) - lastTime s) / 1000) \<and>
         lastTime (run_frames ts s) = (if ts = [] then lastTime s else last ts)"
  using assms
proof (induction ts arbitrary: s)
  case Nil
  then show ?case by (simp add: run_frames_def)
next
  case (Cons t rest)
  let ?s1 = "gameLoop True t s"
  have s0: "gameState s = INFINITE"
    using Cons.prems [rule_format, of 0] by (simp add: run_frames_def)
  have sc1: "score ?s1 = score s + 250 * ((t - lastTime s) / 1000)"
    using gameLoop_score [of True t s] gameLoop_infinite_stays [OF s0, of True t] s0 by simp
  have lt1: "lastTime ?s1 = t" by (rule gameLoop_lastTime)
  have pre: "\<forall>k<length rest. gameState (run_frames (take k rest) ?s1) = INFINITE"
  proof (intro allI impI)
    fix k assume "k < length rest"
    then have "Suc k < length (t # rest)" by simp
    from Cons.prems [rule_format, OF this] show "gameState (run_frames (take k rest) ?s1) = INFINITE"
      by (simp add: run_frames_def)
  qed
  have r: "run_frames (t # rest) s = run_frames rest ?s1"
    by (simp add: run_frames_def)
  from Cons.IH [OF pre] have
    A: "score (run_frames rest ?s1) =
          score ?s1 + 250 * ((lastTime (run_frames rest ?s1) - lastTime ?s1) / 1000)" and
    B: "lastTime (run_frames rest ?s1) = (if rest = [] then lastTime ?s1 else last rest)"
    by blast+
  have "score (run_frames (t # rest) s) =
           score s + 250 * ((lastTime (run_frames (t # rest) s) - lastTime s) / 1000)"
    unfolding r A sc1 lt1 by (simp add: field_simps)
  moreover have "lastTime (run_frames (t # rest) s) = (if t # rest = [] then lastTime s else last (t # rest))"
    unfolding r B lt1 by simp
  ultimately show ?case by blast
qed

lemma infinite_two_seconds:
  assumes "\<forall>k<length ts. gameState (run_frames (take k ts) s) = INFINITE"
    and "ts \<noteq> []" and "last ts - lastTime s = 2000"
  shows "score (run_frames ts s) = score s + 500"
  using infinite_run_score [OF assms(1)] assms(2,3) by simp

text \<open>
  C8. The claim says the score is incremented only while the mode is INFINITE and never
  in any other state. The frame callback tests \<open>gameState === 'LEVEL'\<close> after
  \<open>updateGame\<close>, so a frame that starts in LEVEL and ends in GAME_OVER or in
  LEVEL_COMPLETE takes the branch that calls \<open>updateScore\<close>: on the crash frame of
  \<open>crash_game\<close> and on the completion frame of \<open>cleared_game\<close>, both level runs with
  score 0 and 20 ms after the frame before, the score becomes 5.
\<close>

theorem level_frame_adds_score:
  "gameState crash_game = LEVEL \<and> score crash_game = 0 \<and>
   gameState (gameLoop True 1020 crash_game) = GAME_OVER \<and>
   score (gameLoop True 1020 crash_game) = 5 \<and>
   gameState cleared_game = LEVEL \<and> score cleared_game = 0 \<and>
   gameState (gameLoop True 1020 cleared_game) = LEVEL_COMPLETE \<and>
   score (gameLoop True 1020 cleared_game) = 5"
  unfolding crash_game_frame cleared_game_frame
  by (simp add: crash_game_def cleared_game_def example_game_def resizeCanvas_eq
        initial_game_def)

section \<open>The level index\<close>

text \<open>
  C7, as stated: the level index only ever advances by exactly 1 on level completion
  and is never decremented. On the level-select screen with level 7 as the current
  level, a click on the button of level 3 starts level 3: the index goes from 7 to 3.
\<close>

theorem level_select_lowers_currentLevel:
  "gameState select_game = LEVEL_SELECT \<and> currentLevel select_game = 7 \<and>
   map_option currentLevel (step half_draws (MouseDown 240 160) select_game) = Some 3 \<and>
   map_option gameState (step half_draws (MouseDown 240 160) select_game) = Some LEVEL"
proof -
  have nb: "\<not> isButtonClicked (menuButtons select_game k_back) 240 160"
    by (simp add: select_game_def example_game_def resizeCanvas_eq menuButtons_layout
          isButtonClicked_def)
  have c1: "\<not> isButtonClicked (menuButtons select_game (k_level 1)) 240 160"
    and c2: "\<not> isButtonClicked (menuButtons select_game (k_level 2)) 240 160"
    and c3: "isButtonClicked (menuButtons select_game (k_level 3)) 240 160"
    by (simp_all add: select_game_def example_game_def resizeCanvas_eq menuButtons_layout
          isButtonClicked_def)
  have "levelSelectLoop half_draws 240 160 1 select_game
        = levelSelectLoop half_draws 240 160 3 select_game"
    using levelSelectLoop_skip [of 1, OF _ c1] levelSelectLoop_skip [of 2, OF _ c2] by simp
  also have "\<dots> = map_option (\<lambda>s3. s3\<lparr>gameState := LEVEL\<rparr>)
       (generateObstacles half_draws False (resetPlayerAndObstacles (select_game\<lparr>currentLevel := 3\<rparr>)))"
    using levelSelectLoop_pick [of 3, OF _ c3] by simp
  finally have l: "levelSelectLoop half_draws 240 160 1 select_game =
     map_option (\<lambda>s3. s3\<lparr>gameState := LEVEL\<rparr>)
       (generateObstacles half_draws False (resetPlayerAndObstacles (select_game\<lparr>currentLevel := 3\<rparr>)))" .
  have "\<exists>g. generateObstacles half_draws False (resetPlayerAndObstacles (select_game\<lparr>currentLevel := 3\<rparr>)) = Some g"
    by (intro generateObstacles_terminates)
       (simp_all add: resetPlayerAndObstacles_eq select_game_def example_game_def resizeCanvas_eq
          half_draws_def initial_game_def initial_player_def)
  then obtain g where
    g: "generateObstacles half_draws False (resetPlayerAndObstacles (select_game\<lparr>currentLevel := 3\<rparr>)) = Some g"
    by blast
  have "currentLevel g = 3"
    by (subst generateObstacles_frame [OF g]) (simp add: resetPlayerAndObstacles_eq)
  moreover have "step half_draws (MouseDown 240 160) select_game = Some (g\<lparr>gameState := LEVEL\<rparr>)"
    using nb l g by (simp add: step_def handleMouseDown_def select_game_def)
  ultimately show ?thesis
    by (simp add: select_game_def)
qed


text \<open>
  C7, amended: across every operation (frame, mouse press, key press, resize) the level
  index changes in two ways only. A frame that starts in LEVEL and completes the level
  advances it by exactly 1; a click on the level-select screen that lands on the button
  of level N, 1 to 50, sets it to N, which may be lower or higher than before. Every
  other operation leaves it unchanged.
\<close>

theorem currentLevel_changes:
  assumes "step rnd e s = Some s'"
  shows "currentLevel s' = currentLevel s \<or>
         (\<exists>t. e = Tick t \<and> gameState s = LEVEL \<and> gameState s' = LEVEL_COMPLETE \<and>
              currentLevel s' = currentLevel s + 1) \<or>
         (\<exists>x y. e = MouseDown x y \<and> gameState s = LEVEL_SELECT \<and> gameState s' = LEVEL \<and>
              1 \<le> currentLevel s' \<and> currentLevel s' \<le> 50 \<and>
              isButtonClicked (menuButtons s (k_level (currentLevel s'))) x y)"
proof (cases e)
  case (Tick t)
  then have "s' = gameLoop True t s" using assms by (simp add: step_def)
  then show ?thesis using gameLoop_level [of True t s] Tick by auto
next
  case (MouseDown x y)
  then have "handleMouseDown rnd x y s = Some s'" using assms by (simp add: step_def)
  from handleMouseDown_level [OF this] show ?thesis using MouseDown by auto
next
  case (KeyDown code)
  then have "s' = handleKeyInput code s" using assms by (simp add: step_def)
  then show ?thesis by (simp add: handleKeyInput_def jump_def)
next
  case (Resize w h)
  then have "s' = resizeCanvas w h s" using assms by (simp add: step_def)
  then show ?thesis by (simp add: resizeCanvas_eq)
qed

theorem currentLevel_changes_witness:
  "step half_draws (Tick 1020) cleared_game = Some (gameLoop True 1020 cleared_game) \<and>
   gameState cleared_game = LEVEL \<and>
   gameState (gameLoop True 1020 cleared_game) = LEVEL_COMPLETE \<and>
   currentLevel cleared_game = 7 \<and>
   currentLevel (gameLoop True 1020 cleared_game) = 8"
proof -
  have st: "step half_draws (Tick 1020) cleared_game = Some (gameLoop True 1020 cleared_game)"
    by (simp add: step_def)
  have c7: "currentLevel cleared_game = 7" "gameState cleared_game = LEVEL"
    by (simp_all add: cleared_game_def)
  have "gameState (gameLoop True 1020 cleared_game) = LEVEL_COMPLETE"
    unfolding cleared_game_frame by simp
  moreover have "currentLevel (gameLoop True 1020 cleared_game) \<noteq> currentLevel cleared_game"
    unfolding cleared_game_frame by (simp add: cleared_game_def)
  ultimately show ?thesis
    using currentLevel_changes [OF st] st c7 by auto
qed

section \<open>The transition into GAME_OVER\<close>

text \<open>
  A frame in a play state whose scan finds its first overlap at index \<open>k\<close>: \<open>updateGame\<close>
  is \<open>resetGame\<close> applied to the state after the physics step with the obstacles up to
  \<open>k\<close> scrolled, and the frame callback then adds \<open>250 * delta\<close> to the score.
\<close>

lemma gameLoop_collision_tick:
  assumes "gameState s = LEVEL \<or> gameState s = INFINITE"
    and "k < length (levelObstacles s)"
    and "spec_collides (updatePlayer (s\<lparr>lastTime := t\<rparr>))
           (spec_scrolled (spec_scrollSpeed s * ((t - lastTime s) / 1000)) (levelObstacles s ! k))"
    and "\<forall>j<k. \<not> spec_collides (updatePlayer (s\<lparr>lastTime := t\<rparr>))
           (spec_scrolled (spec_scrollSpeed s * ((t - lastTime s) / 1000)) (levelObstacles s ! j))"
  shows "updateGame ((t - lastTime s) / 1000) (s\<lparr>lastTime := t\<rparr>) =
           resetGame ((updatePlayer (s\<lparr>lastTime := t\<rparr>))\<lparr>levelObstacles :=
             map (spec_scrolled (spec_scrollSpeed s * ((t - lastTime s) / 1000)))
               (take (Suc k) (levelObstacles s)) @ drop (Suc k) (levelObstacles s)\<rparr>)"
    and "(gameLoop True t s)\<lparr>score := score s\<rparr> =
           updateGame ((t - lastTime s) / 1000) (s\<lparr>lastTime := t\<rparr>)"
    and "score (gameLoop True t s) = score s + 250 * ((t - lastTime s) / 1000)"
proof -
  let ?d = "(t - lastTime s) / 1000"
  let ?s1 = "updatePlayer (s\<lparr>lastTime := t\<rparr>)"
  let ?s2 = "updateGame ?d (s\<lparr>lastTime := t\<rparr>)"
  have sp: "spec_scrollSpeed ?s1 = spec_scrollSpeed s"
    by (simp add: spec_scrollSpeed_def updatePlayer_other)
  have ob: "levelObstacles ?s1 = levelObstacles s"
    by (simp add: updatePlayer_other)
  have h: "k < length (levelObstacles ?s1)"
    "spec_collides ?s1 (spec_scrolled (spec_scrollSpeed ?s1 * ?d) (levelObstacles ?s1 ! k))"
    "\<forall>j<k. \<not> spec_collides ?s1 (spec_scrolled (spec_scrollSpeed ?s1 * ?d) (levelObstacles ?s1 ! j))"
    using assms(2,3,4) unfolding sp ob by simp_all
  show u: "?s2 = resetGame (?s1\<lparr>levelObstacles :=
             map (spec_scrolled (spec_scrollSpeed s * ?d))
               (take (Suc k) (levelObstacles s)) @ drop (Suc k) (levelObstacles s)\<rparr>)"
    unfolding updateGame_def updateObstacles_hit [OF h] sp ob
    by (simp add: resetGame_eq)
  have g2: "gameState ?s2 = GAME_OVER" unfolding u by (simp add: resetGame_eq)
  have sc2: "score ?s2 = score s" by (simp add: updateGame_score)
  have r: "gameLoop True t s = updateScore ?d ?s2"
    using assms(1) g2 by (auto simp add: gameLoop_def Let_def)
  show "(gameLoop True t s)\<lparr>score := score s\<rparr> = ?s2"
    unfolding r using sc2 by (simp add: updateScore_def)
  show "score (gameLoop True t s) = score s + 250 * ?d"
    unfolding r by (simp add: updateScore_def sc2)
qed

text \<open>What each operation does in GAME_OVER.\<close>

lemma game_over_step:
  assumes "gameState s = GAME_OVER" and "step rnd e s = Some s'"
  shows "(\<forall>t. e = Tick t \<longrightarrow> s' = s\<lparr>lastTime := t\<rparr>)"
    and "(\<forall>c. e = KeyDown c \<longrightarrow> s' = s)"
    and "(\<forall>x y. e = MouseDown x y \<and>
             \<not> isButtonClicked (menuButtons s k_gameOverMenu) x y \<and>
             \<not> isButtonClicked (menuButtons s k_gameOverRetry) x y \<longrightarrow> s' = s)"
    and "(\<forall>w h. e = Resize w h \<longrightarrow>
             s' = resizeCanvas w h s \<and>
             gameState s' = GAME_OVER \<and> previousGameState s' = previousGameState s \<and>
             score s' = score s \<and> currentLevel s' = currentLevel s \<and>
             levelObstacles s' = levelObstacles s \<and> lastTime s' = lastTime s \<and>
             velocityY (player s') = velocityY (player s) \<and>
             isGrounded (player s') = isGrounded (player s) \<and>
             p_x (player s') = w * 0.05 \<and>
             p_y (player s') = h - max 18 (h * 0.06) - h * 0.15 \<and>
             p_width (player s') = h * 0.15 \<and> p_height (player s') = h * 0.15)"
    and "(\<forall>x y. e = MouseDown x y \<and> isButtonClicked (menuButtons s k_gameOverMenu) x y \<longrightarrow>
             s' = (resetPlayerAndObstacles s)\<lparr>score := 0, gameState := MENU\<rparr>)"
    and "(\<forall>x y. e = MouseDown x y \<and>
             \<not> isButtonClicked (menuButtons s k_gameOverMenu) x y \<and>
             isButtonClicked (menuButtons s k_gameOverRetry) x y \<longrightarrow>
             gameState s' = (if previousGameState s = INFINITE then INFINITE else LEVEL) \<and>
             player s' = player (resetPlayerAndObstacles s))"
proof -
  show "\<forall>t. e = Tick t \<longrightarrow> s' = s\<lparr>lastTime := t\<rparr>"
    using assms by (auto simp add: step_def gameLoop_def Let_def)
  show "\<forall>c. e = KeyDown c \<longrightarrow> s' = s"
    using assms by (auto simp add: step_def handleKeyInput_def)
  show "\<forall>x y. e = MouseDown x y \<and>
             \<not> isButtonClicked (menuButtons s k_gameOverMenu) x y \<and>
             \<not> isButtonClicked (menuButtons s k_gameOverRetry) x y \<longrightarrow> s' = s"
    using assms by (auto simp add: step_def handleMouseDown_def)
  show "\<forall>w h. e = Resize w h \<longrightarrow>
             s' = resizeCanvas w h s \<and>
             gameState s' = GAME_OVER \<and> previousGameState s' = previousGameState s \<and>
             score s' = score s \<and> currentLevel s' = currentLevel s \<and>
             levelObstacles s' = levelObstacles s \<and> lastTime s' = lastTime s \<and>
             velocityY (player s') = velocityY (player s) \<and>
             isGrounded (player s') = isGrounded (player s) \<and>
             p_x (player s') = w * 0.05 \<and>
             p_y (player s') = h - max 18 (h * 0.06) - h * 0.15 \<and>
             p_width (player s') = h * 0.15 \<and> p_height (player s') = h * 0.15"
    using assms by (auto simp add: step_def resizeCanvas_eq)
  show "\<forall>x y. e = MouseDown x y \<and> isButtonClicked (menuButtons s k_gameOverMenu) x y \<longrightarrow>
             s' = (resetPlayerAndObstacles s)\<lparr>score := 0, gameState := MENU\<rparr>"
    using assms by (auto simp add: step_def handleMouseDown_def Let_def)
  show "\<forall>x y. e = MouseDown x y \<and>
             \<not> isButtonClicked (menuButtons s k_gameOverMenu) x y \<and>
             isButtonClicked (menuButtons s k_gameOverRetry) x y \<longrightarrow>
             gameState s' = (if previousGameState s = INFINITE then INFINITE else LEVEL) \<and>
             player s' = player (resetPlayerAndObstacles s)"
  proof (intro allI impI, elim conjE)
    fix x y
    assume e: "e = MouseDown x y"
      and n: "\<not> isButtonClicked (menuButtons s k_gameOverMenu) x y"
      and r: "isButtonClicked (menuButtons s k_gameOverRetry) x y"
    have h: "handleMouseDown rnd x y s = Some s'"
      using assms(2) e by (simp add: step_def)
    show "gameState s' = (if previousGameState s = INFINITE then INFINITE else LEVEL) \<and>
             player s' = player (resetPlayerAndObstacles s)"
    proof (cases "previousGameState s = INFINITE")
      case True
      from h assms(1) n r True obtain g where
        g: "generateObstacles rnd True ((resetPlayerAndObstacles s)\<lparr>score := 0\<rparr>) = Some g"
        and s': "s' = g\<lparr>gameState := INFINITE\<rparr>"
        by (auto simp add: handleMouseDown_def Let_def resetPlayerAndObstacles_eq
              split: option.splits)
      have "player g = player (resetPlayerAndObstacles s)"
        by (subst generateObstacles_frame [OF g]) simp
      then show ?thesis using True by (simp add: s')
    next
      case False
      from h assms(1) n r False obtain g where
        g: "generateObstacles rnd False (resetPlayerAndObstacles s) = Some g"
        and s': "s' = g\<lparr>gameState := LEVEL\<rparr>"
        by (auto simp add: handleMouseDown_def Let_def resetPlayerAndObstacles_eq
              split: option.splits)
      have "player g = player (resetPlayerAndObstacles s)"
        by (subst generateObstacles_frame [OF g]) simp
      then show ?thesis using False by (simp add: s')
    qed
  qed
qed

text \<open>The crash in the air, worked out.\<close>

lemma air_crash_game_eq:
  "air_crash_game =
     crash_game\<lparr>lastTime := 1020,
       levelObstacles := [low_obstacle (-105), low_obstacle 127, low_obstacle 600],
       previousGameState := LEVEL,
       player := (player crash_game)\<lparr>p_y := 4401 / 10, velocityY := 0, isGrounded := True\<rparr>,
       gameState := GAME_OVER,
       score := 5\<rparr>"
proof -
  let ?s = "handleKeyInput ''Space'' crash_game"
  let ?s1 = "updatePlayer (?s\<lparr>lastTime := 1020\<rparr>)"
  have j: "?s = crash_game\<lparr>player := (player crash_game)\<lparr>isGrounded := False, velocityY := -36\<rparr>\<rparr>"
    by (simp add: handleKeyInput_def jump_def crash_game_def example_game_def resizeCanvas_eq
          initial_game_def initial_player_def)
  have s1: "?s1 = crash_game\<lparr>lastTime := 1020,
       player := (player crash_game)\<lparr>isGrounded := False, velocityY := - 339 / 10, p_y := 4401 / 10\<rparr>\<rparr>"
    unfolding j
    by (simp add: updatePlayer_def Let_def crash_game_def example_game_def resizeCanvas_eq
          initial_game_def initial_player_def)
  have st: "gameState ?s = LEVEL \<or> gameState ?s = INFINITE"
    unfolding j by (simp add: crash_game_def)
  have d: "(1020 - lastTime ?s) / 1000 = 1 / 50" "spec_scrollSpeed ?s = 250"
    "levelObstacles ?s = [low_obstacle (-100), low_obstacle 132, low_obstacle 600]"
    "score ?s = 0"
    unfolding j
    by (simp_all add: crash_game_def spec_scrollSpeed_def example_game_def resizeCanvas_eq
          initial_game_def)
  have hit: "(1::nat) < length (levelObstacles ?s)"
    "spec_collides ?s1 (spec_scrolled (spec_scrollSpeed ?s * ((1020 - lastTime ?s) / 1000)) (levelObstacles ?s ! 1))"
    "\<forall>j<1. \<not> spec_collides ?s1 (spec_scrolled (spec_scrollSpeed ?s * ((1020 - lastTime ?s) / 1000)) (levelObstacles ?s ! j))"
    unfolding d s1
    by (simp_all add: crash_game_def example_game_def resizeCanvas_eq initial_game_def
          initial_player_def spec_collides_def aabb_def spec_scrolled_def low_obstacle_def)
  note T = gameLoop_collision_tick [OF st hit]
  have u: "updateGame (1 / 50) (?s\<lparr>lastTime := 1020\<rparr>) =
     crash_game\<lparr>lastTime := 1020,
       levelObstacles := [low_obstacle (-105), low_obstacle 127, low_obstacle 600],
       previousGameState := LEVEL,
       player := (player crash_game)\<lparr>p_y := 4401 / 10, velocityY := 0, isGrounded := True\<rparr>,
       gameState := GAME_OVER\<rparr>"
    using T(1) unfolding d s1
    by (simp add: resetGame_eq spec_scrolled_def low_obstacle_def crash_game_def)
  have "gameLoop True 1020 ?s = (gameLoop True 1020 ?s)\<lparr>score := score (gameLoop True 1020 ?s)\<rparr>"
    by simp
  also have "\<dots> = ((gameLoop True 1020 ?s)\<lparr>score := score ?s\<rparr>)\<lparr>score := 5\<rparr>"
    using T(3) unfolding d by simp
  also have "\<dots> = (updateGame (1 / 50) (?s\<lparr>lastTime := 1020\<rparr>))\<lparr>score := 5\<rparr>"
    using T(2) unfolding d by simp
  finally show ?thesis
    unfolding air_crash_game_def u by simp
qed


text \<open>\<open>updatePlayer\<close> changes the player only, and not its x.\<close>

lemma updatePlayer_player_only:
  "updatePlayer s = s\<lparr>player := player (updatePlayer s)\<rparr>"
  "p_x (player (updatePlayer s)) = p_x (player s)"
  by (simp_all add: updatePlayer_def Let_def)

text \<open>
  C10, as stated: on a collision tick the transition into GAME_OVER leaves player.x,
  player.y, score, currentLevel and the obstacle sequence unchanged, so that the crash
  frame is preserved until a GAME_OVER button click clears it. The tick that finds the
  overlap has by then scrolled the obstacles up to the colliding one, and in GAME_OVER
  a viewport resize re-derives the player's rectangle. After a jump in \<open>crash_game\<close>
  the frame at 1020 crashes in the air at y = 440.1 with the obstacles at -105, 127 and
  600 (they were at -100, 132 and 600), and a resize to the same 1000 by 600 pixels
  then puts the player at y = 474 while the state stays GAME_OVER.
\<close>

theorem resize_moves_crashed_player:
  "gameState (handleKeyInput ''Space'' crash_game) = LEVEL \<and>
   levelObstacles (handleKeyInput ''Space'' crash_game)
     = [low_obstacle (-100), low_obstacle 132, low_obstacle 600] \<and>
   air_crash_game = gameLoop True 1020 (handleKeyInput ''Space'' crash_game) \<and>
   gameState air_crash_game = GAME_OVER \<and>
   levelObstacles air_crash_game = [low_obstacle (-105), low_obstacle 127, low_obstacle 600] \<and>
   canvas_width air_crash_game = 1000 \<and> canvas_height air_crash_game = 600 \<and>
   p_y (player air_crash_game) = 4401 / 10 \<and>
   step half_draws (Resize 1000 600) air_crash_game
     = Some (resizeCanvas 1000 600 air_crash_game) \<and>
   gameState (resizeCanvas 1000 600 air_crash_game) = GAME_OVER \<and>
   p_y (player (resizeCanvas 1000 600 air_crash_game)) = 474"
proof -
  have "gameState (handleKeyInput ''Space'' crash_game) = LEVEL \<and>
   levelObstacles (handleKeyInput ''Space'' crash_game)
     = [low_obstacle (-100), low_obstacle 132, low_obstacle 600]"
    by (simp add: handleKeyInput_def jump_def crash_game_def)
  moreover have "air_crash_game = gameLoop True 1020 (handleKeyInput ''Space'' crash_game)"
    by (rule air_crash_game_def)
  moreover have "gameState air_crash_game = GAME_OVER \<and>
   levelObstacles air_crash_game = [low_obstacle (-105), low_obstacle 127, low_obstacle 600] \<and>
   canvas_width air_crash_game = 1000 \<and> canvas_height air_crash_game = 600 \<and>
   p_y (player air_crash_game) = 4401 / 10"
    unfolding air_crash_game_eq
    by (simp add: crash_game_def example_game_def resizeCanvas_eq)
  moreover have "step half_draws (Resize 1000 600) air_crash_game
     = Some (resizeCanvas 1000 600 air_crash_game)"
    by (simp add: step_def)
  moreover have "gameState (resizeCanvas 1000 600 air_crash_game) = GAME_OVER \<and>
   p_y (player (resizeCanvas 1000 600 air_crash_game)) = 474"
    unfolding air_crash_game_eq by (simp add: resizeCanvas_eq)
  ultimately show ?thesis by blast
qed

text \<open>
  C10, amended: \<open>resetGame\<close>, the transition into GAME_OVER, only records
  previousGameState, zeroes velocityY, sets grounded and switches the state; player.x,
  player.y, score, currentLevel and the obstacle sequence stay as they are when the
  overlap is found. Over the whole collision tick the resulting state is, apart from
  the score, the state before the tick with the timestamp stored, the player as the
  tick's physics step left it (x unchanged) with velocityY zeroed and grounded set, the
  obstacles up to the colliding one scrolled and the later ones untouched,
  previousGameState recorded and the state GAME_OVER; currentLevel is unchanged, and a
  tick that started in INFINITE has added its \<open>250 * delta\<close> to the score. In GAME_OVER a
  frame only stores the timestamp, a key press and a click outside the two buttons
  change nothing, and a resize re-derives the player's rectangle from the new size while
  keeping score, level index, obstacles, velocity and state; a click on Return to Menu
  or on Retry resets the player and leaves GAME_OVER.
\<close>

theorem game_over_transition_frame:
  "resetGame s =
     s\<lparr>previousGameState := gameState s,
       player := (player s)\<lparr>velocityY := 0, isGrounded := True\<rparr>,
       gameState := GAME_OVER\<rparr> \<and>
   ((gameState s = LEVEL \<or> gameState s = INFINITE) \<and>
    k < length (levelObstacles s) \<and>
    spec_collides (updatePlayer (s\<lparr>lastTime := t\<rparr>))
      (spec_scrolled (spec_scrollSpeed s * ((t - lastTime s) / 1000)) (levelObstacles s ! k)) \<and>
    (\<forall>j<k. \<not> spec_collides (updatePlayer (s\<lparr>lastTime := t\<rparr>))
      (spec_scrolled (spec_scrollSpeed s * ((t - lastTime s) / 1000)) (levelObstacles s ! j)))
    \<longrightarrow>
      updateGame ((t - lastTime s) / 1000) (s\<lparr>lastTime := t\<rparr>) =
        resetGame ((updatePlayer (s\<lparr>lastTime := t\<rparr>))\<lparr>levelObstacles :=
          map (spec_scrolled (spec_scrollSpeed s * ((t - lastTime s) / 1000)))
            (take (Suc k) (levelObstacles s)) @ drop (Suc k) (levelObstacles s)\<rparr>) \<and>
      (gameLoop True t s)\<lparr>score := score s\<rparr> =
        s\<lparr>lastTime := t,
          levelObstacles :=
            map (spec_scrolled (spec_scrollSpeed s * ((t - lastTime s) / 1000)))
              (take (Suc k) (levelObstacles s)) @ drop (Suc k) (levelObstacles s),
          previousGameState := gameState s,
          player := (player (updatePlayer (s\<lparr>lastTime := t\<rparr>)))
                      \<lparr>velocityY := 0, isGrounded := True\<rparr>,
          gameState := GAME_OVER\<rparr> \<and>
      p_x (player (gameLoop True t s)) = p_x (player s) \<and>
      currentLevel (gameLoop True t s) = currentLevel s \<and>
      (gameState s = INFINITE \<longrightarrow>
         score (gameLoop True t s) = score s + 250 * ((t - lastTime s) / 1000))) \<and>
   (gameState g = GAME_OVER \<and> step rnd e g = Some g' \<longrightarrow>
      (\<forall>t. e = Tick t \<longrightarrow> g' = g\<lparr>lastTime := t\<rparr>) \<and>
      (\<forall>c. e = KeyDown c \<longrightarrow> g' = g) \<and>
      (\<forall>x y. e = MouseDown x y \<and>
             \<not> isButtonClicked (menuButtons g k_gameOverMenu) x y \<and>
             \<not> isButtonClicked (menuButtons g k_gameOverRetry) x y \<longrightarrow> g' = g) \<and>
      (\<forall>w h. e = Resize w h \<longrightarrow>
             g' = resizeCanvas w h g \<and>
             gameState g' = GAME_OVER \<and> previousGameState g' = previousGameState g \<and>
             score g' = score g \<and> currentLevel g' = currentLevel g \<and>
             levelObstacles g' = levelObstacles g \<and> lastTime g' = lastTime g \<and>
             velocityY (player g') = velocityY (player g) \<and>
             isGrounded (player g') = isGrounded (player g) \<and>
             p_x (player g') = w * 0.05 \<and>
             p_y (player g') = h - max 18 (h * 0.06) - h * 0.15 \<and>
             p_width (player g') = h * 0.15 \<and> p_height (player g') = h * 0.15) \<and>
      (\<forall>x y. e = MouseDown x y \<and> isButtonClicked (menuButtons g k_gameOverMenu) x y \<longrightarrow>
             g' = (resetPlayerAndObstacles g)\<lparr>score := 0, gameState := MENU\<rparr>) \<and>
      (\<forall>x y. e = MouseDown x y \<and>
             \<not> isButtonClicked (menuButtons g k_gameOverMenu) x y \<and>
             isButtonClicked (menuButtons g k_gameOverRetry) x y \<longrightarrow>
             gameState g' = (if previousGameState g = INFINITE then INFINITE else LEVEL) \<and>
             player g' = player (resetPlayerAndObstacles g)))"
proof (intro conjI impI)
  show "resetGame s =
     s\<lparr>previousGameState := gameState s,
       player := (player s)\<lparr>velocityY := 0, isGrounded := True\<rparr>,
       gameState := GAME_OVER\<rparr>"
    by (rule resetGame_eq)
next
  assume a: "(gameState s = LEVEL \<or> gameState s = INFINITE) \<and>
    k < length (levelObstacles s) \<and>
    spec_collides (updatePlayer (s\<lparr>lastTime := t\<rparr>))
      (spec_scrolled (spec_scrollSpeed s * ((t - lastTime s) / 1000)) (levelObstacles s ! k)) \<and>
    (\<forall>j<k. \<not> spec_collides (updatePlayer (s\<lparr>lastTime := t\<rparr>))
      (spec_scrolled (spec_scrollSpeed s * ((t - lastTime s) / 1000)) (levelObstacles s ! j)))"
  then have st: "gameState s = LEVEL \<or> gameState s = INFINITE"
    and k: "k < length (levelObstacles s)"
    and c: "spec_collides (updatePlayer (s\<lparr>lastTime := t\<rparr>))
      (spec_scrolled (spec_scrollSpeed s * ((t - lastTime s) / 1000)) (levelObstacles s ! k))"
    and f: "\<forall>j<k. \<not> spec_collides (updatePlayer (s\<lparr>lastTime := t\<rparr>))
      (spec_scrolled (spec_scrollSpeed s * ((t - lastTime s) / 1000)) (levelObstacles s ! j))"
    by blast+
  note T = gameLoop_collision_tick [OF st k c f]
  let ?L = "map (spec_scrolled (spec_scrollSpeed s * ((t - lastTime s) / 1000)))
              (take (Suc k) (levelObstacles s)) @ drop (Suc k) (levelObstacles s)"
  let ?s1 = "updatePlayer (s\<lparr>lastTime := t\<rparr>)"
  show u: "updateGame ((t - lastTime s) / 1000) (s\<lparr>lastTime := t\<rparr>) =
        resetGame (?s1\<lparr>levelObstacles := ?L\<rparr>)"
    by (rule T(1))
  have r: "resetGame (?s1\<lparr>levelObstacles := ?L\<rparr>) =
        s\<lparr>lastTime := t, levelObstacles := ?L, previousGameState := gameState s,
          player := (player ?s1)\<lparr>velocityY := 0, isGrounded := True\<rparr>,
          gameState := GAME_OVER\<rparr>"
    by (subst updatePlayer_player_only(1)) (simp add: resetGame_eq updatePlayer_other)
  show e: "(gameLoop True t s)\<lparr>score := score s\<rparr> =
        s\<lparr>lastTime := t, levelObstacles := ?L, previousGameState := gameState s,
          player := (player ?s1)\<lparr>velocityY := 0, isGrounded := True\<rparr>,
          gameState := GAME_OVER\<rparr>"
    unfolding T(2) u r ..
  have "p_x (player ((gameLoop True t s)\<lparr>score := score s\<rparr>)) = p_x (player s)"
    unfolding e by (simp add: updatePlayer_player_only(2))
  then show "p_x (player (gameLoop True t s)) = p_x (player s)" by simp
  have "currentLevel ((gameLoop True t s)\<lparr>score := score s\<rparr>) = currentLevel s"
    unfolding e by simp
  then show "currentLevel (gameLoop True t s) = currentLevel s" by simp
  show "score (gameLoop True t s) = score s + 250 * ((t - lastTime s) / 1000)"
    by (rule T(3))
next
  assume "gameState g = GAME_OVER \<and> step rnd e g = Some g'"
  then have a: "gameState g = GAME_OVER" "step rnd e g = Some g'" by blast+
  note G = game_over_step [OF a]
  show "\<forall>t. e = Tick t \<longrightarrow> g' = g\<lparr>lastTime := t\<rparr>" by (rule G(1))
  show "\<forall>c. e = KeyDown c \<longrightarrow> g' = g" by (rule G(2))
  show "\<forall>x y. e = MouseDown x y \<and>
             \<not> isButtonClicked (menuButtons g k_gameOverMenu) x y \<and>
             \<not> isButtonClicked (menuButtons g k_gameOverRetry) x y \<longrightarrow> g' = g"
    by (rule G(3))
  show "\<forall>w h. e = Resize w h \<longrightarrow>
             g' = resizeCanvas w h g \<and>
             gameState g' = GAME_OVER \<and> previousGameState g' = previousGameState g \<and>
             score g' = score g \<and> currentLevel g' = currentLevel g \<and>
             levelObstacles g' = levelObstacles g \<and> lastTime g' = lastTime g \<and>
             velocityY (player g') = velocityY (player g) \<and>
             isGrounded (player g') = isGrounded (player g) \<and>
             p_x (player g') = w * 0.05 \<and>
             p_y (player g') = h - max 18 (h * 0.06) - h * 0.15 \<and>
             p_width (player g') = h * 0.15 \<and> p_height (player g') = h * 0.15"
    by (rule G(4))
  show "\<forall>x y. e = MouseDown x y \<and> isButtonClicked (menuButtons g k_gameOverMenu) x y \<longrightarrow>
             g' = (resetPlayerAndObstacles g)\<lparr>score := 0, gameState := MENU\<rparr>"
    by (rule G(5))
  show "\<forall>x y. e = MouseDown x y \<and>
             \<not> isButtonClicked (menuButtons g k_gameOverMenu) x y \<and>
             isButtonClicked (menuButtons g k_gameOverRetry) x y \<longrightarrow>
             gameState g' = (if previousGameState g = INFINITE then INFINITE else LEVEL) \<and>
             player g' = player (resetPlayerAndObstacles g)"
    by (rule G(6))
qed

theorem game_over_transition_frame_witness:
  "gameState (handleKeyInput ''Space'' crash_game) = LEVEL \<and>
   (gameLoop True 1020 (handleKeyInput ''Space'' crash_game))\<lparr>score := 0\<rparr> =
     crash_game\<lparr>lastTime := 1020,
       levelObstacles := [low_obstacle (-105), low_obstacle 127, low_obstacle 600],
       previousGameState := LEVEL,
       player := (player crash_game)\<lparr>p_y := 4401 / 10, velocityY := 0, isGrounded := True\<rparr>,
       gameState := GAME_OVER\<rparr> \<and>
   p_x (player air_crash_game) = 50 \<and>
   currentLevel air_crash_game = 7 \<and>
   gameState air_crash_game = GAME_OVER \<and>
   step half_draws (Tick 1040) air_crash_game = Some (gameLoop True 1040 air_crash_game) \<and>
   gameLoop True 1040 air_crash_game = air_crash_game\<lparr>lastTime := 1040\<rparr> \<and>
   step half_draws (Resize 800 600) air_crash_game = Some (resizeCanvas 800 600 air_crash_game) \<and>
   levelObstacles (resizeCanvas 800 600 air_crash_game)
     = [low_obstacle (-105), low_obstacle 127, low_obstacle 600] \<and>
   score (resizeCanvas 800 600 air_crash_game) = 5 \<and>
   p_x (player (resizeCanvas 800 600 air_crash_game)) = 40 \<and>
   p_y (player (resizeCanvas 800 600 air_crash_game)) = 474"
proof -
  let ?s = "handleKeyInput ''Space'' crash_game"
  let ?s1 = "updatePlayer (?s\<lparr>lastTime := 1020\<rparr>)"
  have j: "?s = crash_game\<lparr>player := (player crash_game)\<lparr>isGrounded := False, velocityY := -36\<rparr>\<rparr>"
    by (simp add: handleKeyInput_def jump_def crash_game_def example_game_def resizeCanvas_eq
          initial_game_def initial_player_def)
  have s1: "?s1 = crash_game\<lparr>lastTime := 1020,
       player := (player crash_game)\<lparr>isGrounded := False, velocityY := - 339 / 10, p_y := 4401 / 10\<rparr>\<rparr>"
    unfolding j
    by (simp add: updatePlayer_def Let_def crash_game_def example_game_def resizeCanvas_eq
          initial_game_def initial_player_def)
  have st: "gameState ?s = LEVEL" unfolding j by (simp add: crash_game_def)
  have d: "(1020 - lastTime ?s) / 1000 = 1 / 50" "spec_scrollSpeed ?s = 250"
    "levelObstacles ?s = [low_obstacle (-100), low_obstacle 132, low_obstacle 600]"
    "score ?s = 0" "p_x (player ?s) = 50" "currentLevel ?s = 7"
    unfolding j
    by (simp_all add: crash_game_def spec_scrollSpeed_def example_game_def resizeCanvas_eq
          initial_game_def initial_player_def)
  have hit: "(gameState ?s = LEVEL \<or> gameState ?s = INFINITE) \<and>
    (1::nat) < length (levelObstacles ?s) \<and>
    spec_collides ?s1 (spec_scrolled (spec_scrollSpeed ?s * ((1020 - lastTime ?s) / 1000)) (levelObstacles ?s ! 1)) \<and>
    (\<forall>j<1. \<not> spec_collides ?s1 (spec_scrolled (spec_scrollSpeed ?s * ((1020 - lastTime ?s) / 1000)) (levelObstacles ?s ! j)))"
    unfolding d s1 st
    by (simp add: crash_game_def example_game_def resizeCanvas_eq initial_game_def
          initial_player_def spec_collides_def aabb_def spec_scrolled_def low_obstacle_def)
  have g: "gameState air_crash_game = GAME_OVER"
    unfolding air_crash_game_eq by simp
  have t1: "step half_draws (Tick 1040) air_crash_game = Some (gameLoop True 1040 air_crash_game)"
    and t2: "step half_draws (Resize 800 600) air_crash_game = Some (resizeCanvas 800 600 air_crash_game)"
    by (simp_all add: step_def)
  note B = game_over_transition_frame
    [of ?s 1 1020 air_crash_game half_draws "Tick 1040" "gameLoop True 1040 air_crash_game",
     THEN conjunct2, THEN conjunct1, rule_format, OF hit]
  note C1 = game_over_transition_frame
    [of ?s 1 1020 air_crash_game half_draws "Tick 1040" "gameLoop True 1040 air_crash_game",
     THEN conjunct2, THEN conjunct2, rule_format, OF conjI [OF g t1]]
  note C2 = game_over_transition_frame
    [of ?s 1 1020 air_crash_game half_draws "Resize 800 600" "resizeCanvas 800 600 air_crash_game",
     THEN conjunct2, THEN conjunct2, rule_format, OF conjI [OF g t2]]
  have b: "(gameLoop True 1020 ?s)\<lparr>score := 0\<rparr> =
     crash_game\<lparr>lastTime := 1020,
       levelObstacles := [low_obstacle (-105), low_obstacle 127, low_obstacle 600],
       previousGameState := LEVEL,
       player := (player crash_game)\<lparr>p_y := 4401 / 10, velocityY := 0, isGrounded := True\<rparr>,
       gameState := GAME_OVER\<rparr>"
    unfolding air_crash_game_def [symmetric] air_crash_game_eq
    by (simp add: crash_game_def example_game_def resizeCanvas_eq initial_game_def)
  have b2: "p_x (player air_crash_game) = 50" "currentLevel air_crash_game = 7"
    using B unfolding air_crash_game_def d by simp_all
  have c1: "gameLoop True 1040 air_crash_game = air_crash_game\<lparr>lastTime := 1040\<rparr>"
    using C1 by blast
  have c2: "levelObstacles (resizeCanvas 800 600 air_crash_game)
     = [low_obstacle (-105), low_obstacle 127, low_obstacle 600] \<and>
   score (resizeCanvas 800 600 air_crash_game) = 5 \<and>
   p_x (player (resizeCanvas 800 600 air_crash_game)) = 40 \<and>
   p_y (player (resizeCanvas 800 600 air_crash_game)) = 474"
    using C2 [THEN conjunct2, THEN conjunct2, THEN conjunct2, THEN conjunct1, rule_format, of 800 600]
    by (simp add: air_crash_game_eq)
  from st b b2 g t1 c1 t2 c2 show ?thesis by blast
qed


end
